theory Spec2Isabelle
  imports Main "HOL-Library.AList"
begin

section \<open>Strings and dictionaries of the Python source\<close>

text \<open>
  A Python \<open>str\<close> is a sequence of Unicode code points; a code point is a natural
  number here, so that \<open>length\<close> counts what Python's \<open>len\<close> counts and accented
  letters (\<open>B\<eacute>ja\<close>, \<open>Gab\<egrave>s\<close>) are one element each. \<open>str\<close> embeds an ASCII
  literal.
\<close>

type_synonym ustr = "nat list"

definition str :: "string \<Rightarrow> ustr" where
  "str s = map of_char s"

text \<open>
  \<open>str.isspace\<close> on one code point, as CPython defines it (bidirectional class WS, B or S,
  or category Zs), and \<open>str.strip()\<close> with no argument.
\<close>

definition isspace :: "nat \<Rightarrow> bool" where
  "isspace c \<longleftrightarrow>
     (9 \<le> c \<and> c \<le> 13) \<or> (28 \<le> c \<and> c \<le> 32) \<or> c = 133 \<or> c = 160 \<or> c = 5760 \<or>
     (8192 \<le> c \<and> c \<le> 8202) \<or> c = 8232 \<or> c = 8233 \<or> c = 8239 \<or> c = 8287 \<or> c = 12288"

definition strip :: "ustr \<Rightarrow> ustr" where
  "strip s = rev (dropWhile isspace (rev (dropWhile isspace s)))"

text \<open>
  An event is a dict from field names to strings: the crawler builds it from string
  values only, and \<open>Event.city\<close> is a non-nullable string column. \<open>dict_get d k dflt\<close> is
  \<open>d.get(k, dflt)\<close>.
\<close>

type_synonym event = "ustr \<rightharpoonup> ustr"

definition dict_get :: "('k \<rightharpoonup> 'v) \<Rightarrow> 'k \<Rightarrow> 'v \<Rightarrow> 'v" where
  "dict_get d k dflt = (case d k of None \<Rightarrow> dflt | Some v \<Rightarrow> v)"

text \<open>
  A dict whose iteration order is observable (\<open>scores.items()\<close>, the JSON output) is an
  association list in insertion order. \<open>keys\<close> lists its keys, \<open>k \<in> set (keys d)\<close> is
  \<open>k in d\<close>, and \<open>AList.map_entry k f d\<close> is \<open>d[k] = f(d[k])\<close> for a key that is present.
\<close>

definition keys :: "('k \<times> 'v) list \<Rightarrow> 'k list" where
  "keys d = map fst d"

section \<open>utils/heatmap.py\<close>

definition TUNISIAN_GOVERNORATES :: "ustr list" where
  "TUNISIAN_GOVERNORATES =
    [str ''Ariana'', str ''B'' @ [233] @ str ''ja'', str ''Ben Arous'', str ''Bizerte'',
     str ''Gab'' @ [232] @ str ''s'', str ''Gafsa'',
     str ''Jendouba'', str ''Kairouan'', str ''Kasserine'', str ''Kebili'', str ''Kef'',
     str ''Mahdia'',
     str ''Manouba'', str ''Medenine'', str ''Monastir'', str ''Nabeul'', str ''Sfax'',
     str ''Sidi Bouzid'',
     str ''Siliana'', str ''Sousse'', str ''Tataouine'', str ''Tozeur'', str ''Tunis'',
     str ''Zaghouan'']"

definition CITY_TO_GOVERNORATE :: "(ustr \<times> ustr) list" where
  "CITY_TO_GOVERNORATE =
    [(str ''Tunis'', str ''Tunis''),
     (str ''Ariana'', str ''Ariana''),
     (str ''Ben Arous'', str ''Ben Arous''),
     (str ''Manouba'', str ''Manouba''),
     (str ''Nabeul'', str ''Nabeul''),
     (str ''Zaghouan'', str ''Zaghouan''),
     (str ''Bizerte'', str ''Bizerte''),
     (str ''B'' @ [233] @ str ''ja'', str ''B'' @ [233] @ str ''ja''),
     (str ''Jendouba'', str ''Jendouba''),
     (str ''Kef'', str ''Kef''),
     (str ''Siliana'', str ''Siliana''),
     (str ''Sousse'', str ''Sousse''),
     (str ''Monastir'', str ''Monastir''),
     (str ''Mahdia'', str ''Mahdia''),
     (str ''Sfax'', str ''Sfax''),
     (str ''Kairouan'', str ''Kairouan''),
     (str ''Kasserine'', str ''Kasserine''),
     (str ''Sidi Bouzid'', str ''Sidi Bouzid''),
     (str ''Gab'' @ [232] @ str ''s'', str ''Gab'' @ [232] @ str ''s''),
     (str ''Medenine'', str ''Medenine''),
     (str ''Tataouine'', str ''Tataouine''),
     (str ''Gafsa'', str ''Gafsa''),
     (str ''Tozeur'', str ''Tozeur''),
     (str ''Kebili'', str ''Kebili'')]"

text \<open>Python's integers are unbounded, so a score is an \<open>int\<close>.\<close>

definition get_color_for_score :: "int \<Rightarrow> ustr" where
  "get_color_for_score score_arg =
     (if score_arg = 0 then str ''#3388FF''
      else if 1 \<le> score_arg \<and> score_arg \<le> 3 then str ''#FFD700''
      else if 4 \<le> score_arg \<and> score_arg \<le> 6 then str ''#FF8800''
      else str ''#FF0000'')"

text \<open>
  The first three lines of both loop bodies: the stripped \<open>city\<close> field, and the test that
  makes the loop \<open>continue\<close>.
\<close>

definition city_of :: "event \<Rightarrow> ustr" where
  "city_of ev = strip (dict_get ev (str ''city'') [])"

definition skipped_city :: "ustr \<Rightarrow> bool" where
  "skipped_city c \<longleftrightarrow> c = [] \<or> c \<in> set [str ''Unknown'', str ''Error'', str ''Pending'']"

text \<open>One iteration of the loop of \<open>calculate_governorate_scores\<close>, on the dict \<open>scores\<close>.\<close>

definition score_step :: "event \<Rightarrow> (ustr \<times> int) list \<Rightarrow> (ustr \<times> int) list" where
  "score_step ev scores =
     (let c = city_of ev in
      if skipped_city c then scores
      else
        let governorate = dict_get (map_of CITY_TO_GOVERNORATE) c c in
        if governorate \<in> set (keys scores) then AList.map_entry governorate (\<lambda>v. v + 1) scores
        else if c \<in> set (keys scores) then AList.map_entry c (\<lambda>v. v + 1) scores
        else scores)"

definition calculate_governorate_scores :: "event list \<Rightarrow> (ustr \<times> int) list" where
  "calculate_governorate_scores evs =
     fold score_step evs (map (\<lambda>gov. (gov, 0)) TUNISIAN_GOVERNORATES)"

text \<open>
  One bucket of \<open>get_heatmap_data\<close>: the dict with the keys \<open>score\<close>, \<open>color\<close>,
  \<open>events_count\<close> and \<open>events\<close>. Every bucket is created with a list of its own, so no two
  buckets share their sample list.
\<close>

record bucket =
  score :: int
  color :: ustr
  events_count :: int
  events :: "event list"

definition empty_bucket :: bucket where
  "empty_bucket = \<lparr>score = 0, color = get_color_for_score 0, events_count = 0, events = []\<rparr>"

text \<open>
  The choice of \<open>target_gov\<close> in \<open>get_heatmap_data\<close> for a city that was not skipped;
  \<open>ks\<close> are the keys of \<open>heatmap_data\<close>.
\<close>

definition target_gov :: "ustr list \<Rightarrow> ustr \<Rightarrow> ustr option" where
  "target_gov ks c =
     (let governorate = dict_get (map_of CITY_TO_GOVERNORATE) c c in
      if governorate \<in> set ks then Some governorate
      else if c \<in> set ks then Some c
      else None)"

text \<open>The body of \<open>if target_gov:\<close>, on the bucket \<open>data\<close>.\<close>

definition add_event :: "event \<Rightarrow> bucket \<Rightarrow> bucket" where
  "add_event ev data =
     (let d1 = data\<lparr>events_count := events_count data + 1\<rparr>;
          d2 = d1\<lparr>score := score d1 + 1\<rparr>;
          d3 = d2\<lparr>color := get_color_for_score (score d2)\<rparr>
      in if int (length (events d3)) < 5 then d3\<lparr>events := events d3 @ [ev]\<rparr> else d3)"

text \<open>
  One iteration of the loop of \<open>get_heatmap_data\<close>. \<open>if target_gov:\<close> is false for
  \<open>None\<close> and for the empty string.
\<close>

definition heat_step :: "event \<Rightarrow> (ustr \<times> bucket) list \<Rightarrow> (ustr \<times> bucket) list" where
  "heat_step ev heatmap_data =
     (let c = city_of ev in
      if skipped_city c then heatmap_data
      else
        case target_gov (keys heatmap_data) c of
          None \<Rightarrow> heatmap_data
        | Some t \<Rightarrow>
            if t = [] then heatmap_data
            else AList.map_entry t (add_event ev) heatmap_data)"

definition get_heatmap_data :: "event list \<Rightarrow> (ustr \<times> bucket) list" where
  "get_heatmap_data evs =
     fold heat_step evs (map (\<lambda>gov. (gov, empty_bucket)) TUNISIAN_GOVERNORATES)"

record summary =
  total_events :: int
  active_governorates :: int
  total_governorates :: int
  governorates_with_events :: "ustr list"

definition get_heatmap_summary :: "event list \<Rightarrow> summary" where
  "get_heatmap_summary evs =
     (let scores = calculate_governorate_scores evs;
          total = sum_list (map snd scores);
          active = int (length (filter (\<lambda>v. v > 0) (map snd scores)))
      in \<lparr>total_events = total,
          active_governorates = active,
          total_governorates = int (length TUNISIAN_GOVERNORATES),
          governorates_with_events = map fst (filter (\<lambda>(gov, v). v > 0) scores)\<rparr>)"

subsection \<open>The properties the aggregation is checked against\<close>

text \<open>
  An event is counted when its city resolves to a bucket: the stripped city is none of the
  skipped values and its normal form under the table (the city itself when the table has no
  entry for it) is one of the governorate names.
\<close>

definition resolves_to_bucket :: "event \<Rightarrow> bool" where
  "resolves_to_bucket ev \<longleftrightarrow>
     \<not> skipped_city (city_of ev) \<and>
     dict_get (map_of CITY_TO_GOVERNORATE) (city_of ev) (city_of ev) \<in> set TUNISIAN_GOVERNORATES"

text \<open>
  The simplified scoring loop: it only tests whether \<open>CITY_TO_GOVERNORATE.get(city, city)\<close>
  is a bucket, and has no branch on the raw city.
\<close>

definition score_step_simplified :: "event \<Rightarrow> (ustr \<times> int) list \<Rightarrow> (ustr \<times> int) list" where
  "score_step_simplified ev scores =
     (let c = city_of ev in
      if skipped_city c then scores
      else
        let governorate = dict_get (map_of CITY_TO_GOVERNORATE) c c in
        if governorate \<in> set (keys scores) then AList.map_entry governorate (\<lambda>v. v + 1) scores
        else scores)"

definition calculate_governorate_scores_simplified :: "event list \<Rightarrow> (ustr \<times> int) list" where
  "calculate_governorate_scores_simplified evs =
     fold score_step_simplified evs (map (\<lambda>gov. (gov, 0)) TUNISIAN_GOVERNORATES)"

text \<open>
  The events that match the bucket \<open>g\<close>, in input order: those that are not skipped and
  whose normalised city is \<open>g\<close>. \<open>bucket_for ms\<close> is the bucket whose matching events
  are \<open>ms\<close>: their number as score and count, the colour of that score, and the first five
  of them as sample.
\<close>

definition matching_events :: "ustr \<Rightarrow> event list \<Rightarrow> event list" where
  "matching_events g evs =
     filter (\<lambda>ev. \<not> skipped_city (city_of ev) \<and>
                  dict_get (map_of CITY_TO_GOVERNORATE) (city_of ev) (city_of ev) = g) evs"

definition bucket_for :: "event list \<Rightarrow> bucket" where
  "bucket_for ms =
     \<lparr>score = int (length ms), color = get_color_for_score (int (length ms)),
      events_count = int (length ms), events = take 5 ms\<rparr>"

section \<open>scraping/scraper.py\<close>

definition TUNISIAN_CITIES :: "ustr list" where
  "TUNISIAN_CITIES =
    [str ''Tunis'', str ''Ariana'', str ''Ben Arous'', str ''Manouba'', str ''Nabeul'',
     str ''Zaghouan'',
     str ''Bizerte'', str ''B'' @ [233] @ str ''ja'', str ''Jendouba'', str ''Kef'',
     str ''Siliana'', str ''Sousse'',
     str ''Monastir'', str ''Mahdia'', str ''Sfax'', str ''Kairouan'', str ''Kasserine'',
     str ''Sidi Bouzid'',
     str ''Gab'' @ [232] @ str ''s'', str ''Medenine'', str ''Tataouine'', str ''Gafsa'',
     str ''Tozeur'', str ''Kebili'']"

definition CITY_ALIASES :: "(ustr \<times> ustr) list" where
  "CITY_ALIASES =
    [(str ''monastir'', str ''Monastir''),
     (str ''mehdia'', str ''Mahdia''),
     (str ''mahdia'', str ''Mahdia''),
     (str ''sfax'', str ''Sfax''),
     (str ''sousse'', str ''Sousse''),
     (str ''kairouan'', str ''Kairouan'')]"

definition VENUE_CITY_MAP :: "(ustr \<times> ustr) list" where
  "VENUE_CITY_MAP =
    [(str ''th'' @ [233, 226] @ str ''tre municipal'', str ''Tunis''),
     (str ''theatre municipal'', str ''Tunis''),
     (str ''colis'' @ [233] @ str ''e'', str ''Tunis''),
     (str ''4'' @ [232] @ str ''me art'', str ''Tunis''),
     (str ''africa art center'', str ''Tunis''),
     (str ''complexe culturel sfax'', str ''Sfax''),
     (str ''maison de la culture mahdia'', str ''Mahdia''),
     (str ''maison de la culture monastir'', str ''Monastir'')]"

text \<open>
  \<open>str.lower\<close> and the class \<open>\w\<close> of the module \<open>re\<close> are tables of the Unicode
  database in the Python runtime, not code of this repository; the resolver takes them as
  parameters.
\<close>

record pyrt =
  str_lower :: "ustr \<Rightarrow> ustr"
  re_word :: "nat \<Rightarrow> bool"

text \<open>
  \<open>re.search(rf'\b{key}\b', text)\<close> for a key without regex metacharacters, as all keys of
  the tables above are: the key occurs in the text at a position \<open>i\<close> with a word boundary
  before and after it. \<open>\b\<close> holds at a position when exactly one of the characters on its
  two sides is a word character, the outside of the text counting as none.
\<close>

definition word_at :: "(nat \<Rightarrow> bool) \<Rightarrow> ustr \<Rightarrow> nat \<Rightarrow> bool" where
  "word_at w s i \<longleftrightarrow> i < length s \<and> w (s ! i)"

definition boundary :: "(nat \<Rightarrow> bool) \<Rightarrow> ustr \<Rightarrow> nat \<Rightarrow> bool" where
  "boundary w s i \<longleftrightarrow> (0 < i \<and> word_at w s (i - 1)) \<noteq> word_at w s i"

definition occurs_at :: "ustr \<Rightarrow> ustr \<Rightarrow> nat \<Rightarrow> bool" where
  "occurs_at key s i \<longleftrightarrow> take (length key) (drop i s) = key"

definition re_search_word :: "(nat \<Rightarrow> bool) \<Rightarrow> ustr \<Rightarrow> ustr \<Rightarrow> bool" where
  "re_search_word w key s \<longleftrightarrow>
     list_ex (\<lambda>i. boundary w s i \<and> occurs_at key s i \<and> boundary w s (i + length key))
       [0..<Suc (length s)]"

text \<open>\<open>venue in text\<close> on strings.\<close>

definition substring :: "ustr \<Rightarrow> ustr \<Rightarrow> bool" where
  "substring key s \<longleftrightarrow> list_ex (occurs_at key s) [0..<Suc (length s)]"

text \<open>
  What the browser shows for one URL. \<open>goto_ok\<close> tells whether \<open>page.goto\<close> and the wait
  after it return rather than raise. \<open>query_all sel\<close> is \<open>page.query_selector_all(sel)\<close>:
  \<open>None\<close> when the call raises, otherwise the list of blocks, each block being the result of
  its \<open>inner_text()\<close> (\<open>None\<close> when that raises). A site maps a URL to its page.
\<close>

record page_view =
  goto_ok :: bool
  query_all :: "ustr \<Rightarrow> ustr option list option"

type_synonym site = "ustr \<Rightarrow> page_view"

datatype outcome = Raised | Found ustr | NoMatch

text \<open>Tier 1: the loop over \<open>CITY_ALIASES.items()\<close> under \<open>if event_name:\<close>.\<close>

definition title_tier :: "pyrt \<Rightarrow> ustr option \<Rightarrow> ustr option" where
  "title_tier rt event_name =
     (case event_name of
        None \<Rightarrow> None
      | Some n \<Rightarrow>
          if n = [] then None
          else map_option snd
                 (find (\<lambda>(key, cty). re_search_word (re_word rt) key (str_lower rt n))
                    CITY_ALIASES))"

text \<open>
  The loop over the blocks of one query: \<open>f\<close> maps the lowered text of a block to the city it
  gives, if any; the first block with a city returns it, a block whose text cannot be read
  raises.
\<close>

fun scan_blocks :: "pyrt \<Rightarrow> (ustr \<Rightarrow> ustr option) \<Rightarrow> ustr option list \<Rightarrow> outcome" where
  "scan_blocks rt f [] = NoMatch"
| "scan_blocks rt f (b # bs) =
     (case b of
        None \<Rightarrow> Raised
      | Some t \<Rightarrow>
          (case f (str_lower rt t) of
             Some cty \<Rightarrow> Found cty
           | None \<Rightarrow> scan_blocks rt f bs))"

definition address_match :: "pyrt \<Rightarrow> ustr \<Rightarrow> ustr option" where
  "address_match rt text =
     find (\<lambda>cty. re_search_word (re_word rt) (str_lower rt cty) text) TUNISIAN_CITIES"

definition venue_match :: "ustr \<Rightarrow> ustr option" where
  "venue_match text =
     map_option snd (find (\<lambda>(venue, cty). substring venue text) VENUE_CITY_MAP)"

definition address_selectors :: "ustr list" where
  "address_selectors =
     [str ''div[class*=\"address\"]'', str ''div[class*=\"location\"]'',
      str ''span[class*=\"address\"]'', str ''p[class*=\"address\"]'']"

text \<open>Tier 2: the loop over \<open>address_selectors\<close>.\<close>

fun address_tier :: "pyrt \<Rightarrow> page_view \<Rightarrow> ustr list \<Rightarrow> outcome" where
  "address_tier rt pg [] = NoMatch"
| "address_tier rt pg (sel # sels) =
     (case query_all pg sel of
        None \<Rightarrow> Raised
      | Some blocks \<Rightarrow>
          (case scan_blocks rt (address_match rt) blocks of
             NoMatch \<Rightarrow> address_tier rt pg sels
           | r \<Rightarrow> r))"

text \<open>Tier 3: the venue blocks.\<close>

definition venue_tier :: "pyrt \<Rightarrow> page_view \<Rightarrow> outcome" where
  "venue_tier rt pg =
     (case query_all pg (str ''div[class*=\"venue\"], div.short_info, p'') of
        None \<Rightarrow> Raised
      | Some blocks \<Rightarrow> scan_blocks rt venue_match blocks)"

text \<open>
  \<open>extract_city_from_event_page\<close>: everything is inside the \<open>try\<close>, the navigation comes
  first, and every exception gives \<open>Error\<close>.
\<close>

definition extract_city_from_event_page :: "pyrt \<Rightarrow> site \<Rightarrow> ustr \<Rightarrow> ustr option \<Rightarrow> ustr" where
  "extract_city_from_event_page rt web event_url event_name =
     (let pg = web event_url in
      if \<not> goto_ok pg then str ''Error''
      else
        case title_tier rt event_name of
          Some cty \<Rightarrow> cty
        | None \<Rightarrow>
            (case address_tier rt pg address_selectors of
               Raised \<Rightarrow> str ''Error''
             | Found cty \<Rightarrow> cty
             | NoMatch \<Rightarrow>
                 (case venue_tier rt pg of
                    Raised \<Rightarrow> str ''Error''
                  | Found cty \<Rightarrow> cty
                  | NoMatch \<Rightarrow> str ''Unknown'')))"

text \<open>
  One \<open>div.tour_container\<close> of the listing, as the queries of the loop see it: the \<open>href\<close>
  of its link (\<open>None\<close> without a link, \<open>Some None\<close> for a link without the attribute), the
  inner texts of the elements that exist, and what \<open>datetime.now().isoformat()\<close> returns when
  the item is reached.
\<close>

record container =
  link_href :: "ustr option option"
  title_strong :: "ustr option"
  title_h3 :: "ustr option"
  short_info :: "ustr option"
  rating_small :: "ustr option"
  short_info_price :: "ustr option"
  clock :: ustr

text \<open>The \<open>href\<close> after \<open>if not href.startswith('http')\<close>.\<close>

definition absolute_href :: "ustr \<Rightarrow> ustr" where
  "absolute_href href =
     (if take 4 href = str ''http'' then href else str ''https://teskerti.tn'' @ href)"

text \<open>\<open>s.split('\n')[0]\<close>: the text before the first line feed.\<close>

definition first_line :: "ustr \<Rightarrow> ustr" where
  "first_line s = takeWhile (\<lambda>c. c \<noteq> 10) s"

text \<open>The dict appended to \<open>events\<close>.\<close>

definition new_event :: "container \<Rightarrow> ustr \<Rightarrow> event" where
  "new_event c href =
     [str ''name'' \<mapsto>
        (case (case title_strong c of Some t \<Rightarrow> Some t | None \<Rightarrow> title_h3 c) of
           Some t \<Rightarrow> strip t | None \<Rightarrow> str ''Unknown''),
      str ''place'' \<mapsto>
        (case short_info c of Some t \<Rightarrow> strip (first_line t) | None \<Rightarrow> str ''N/A''),
      str ''date'' \<mapsto> (case rating_small c of Some t \<Rightarrow> strip t | None \<Rightarrow> str ''N/A''),
      str ''price'' \<mapsto> (case short_info_price c of Some t \<Rightarrow> strip t | None \<Rightarrow> str ''N/A''),
      str ''url'' \<mapsto> href,
      str ''city'' \<mapsto> str ''Pending'',
      str ''scraped_at'' \<mapsto> clock c]"

text \<open>
  The loop over the containers, on the list \<open>events\<close> and the set \<open>seen_urls\<close>. An item
  without a link, or whose \<open>href\<close> is missing or empty, is passed over.
\<close>

fun crawl :: "container list \<Rightarrow> event list \<Rightarrow> ustr set \<Rightarrow> event list" where
  "crawl [] evs seen_urls = evs"
| "crawl (c # cs) evs seen_urls =
     (case link_href c of
        None \<Rightarrow> crawl cs evs seen_urls
      | Some None \<Rightarrow> crawl cs evs seen_urls
      | Some (Some h) \<Rightarrow>
          if h = [] then crawl cs evs seen_urls
          else
            let href = absolute_href h in
            if href \<in> seen_urls then crawl cs evs seen_urls
            else crawl cs (evs @ [new_event c href]) (insert href seen_urls))"

text \<open>
  One iteration of the second loop: resolve the city of the event, apply the rule under
  \<open>IMPLICIT TUNIS RULE\<close>, and store the city. \<open>event['url']\<close> and \<open>event['name']\<close> raise
  \<open>KeyError\<close> on a dict without the key, which is \<open>None\<close> here.
\<close>

definition assign_city :: "pyrt \<Rightarrow> site \<Rightarrow> event \<Rightarrow> event option" where
  "assign_city rt web ev =
     (case ev (str ''url'') of
        None \<Rightarrow> None
      | Some u \<Rightarrow>
          (case ev (str ''name'') of
             None \<Rightarrow> None
           | Some n \<Rightarrow>
               let cty = extract_city_from_event_page rt web u (Some n);
                   cty = (if cty = str ''Unknown'' then str ''Tunis'' else cty)
               in Some (ev(str ''city'' \<mapsto> cty))))"

fun assign_cities :: "pyrt \<Rightarrow> site \<Rightarrow> event list \<Rightarrow> event list option" where
  "assign_cities rt web [] = Some []"
| "assign_cities rt web (ev # evs) =
     (case assign_city rt web ev of
        None \<Rightarrow> None
      | Some ev' \<Rightarrow> map_option ((#) ev') (assign_cities rt web evs))"

text \<open>
  \<open>scrape_events\<close> from the containers found on the listing page on: the first loop, then
  the second. Loading the listing page is not part of the model.
\<close>

definition scrape_events :: "pyrt \<Rightarrow> site \<Rightarrow> container list \<Rightarrow> event list option" where
  "scrape_events rt web containers = assign_cities rt web (crawl containers [] {})"

text \<open>
  The URL an item of the listing resolves to, if it has one: an \<open>href\<close> that is present
  and not empty stands for itself when it starts with \<open>http\<close>, and for the origin
  \<open>https://teskerti.tn\<close> followed by the \<open>href\<close> otherwise.
\<close>

definition resolved_url :: "container \<Rightarrow> ustr option" where
  "resolved_url c =
     (case link_href c of
        Some (Some h) \<Rightarrow>
          if h = [] then None
          else if take 4 h = str ''http'' then Some h
          else Some (str ''https://teskerti.tn'' @ h)
      | _ \<Rightarrow> None)"

text \<open>A container without any element but a clock, for the examples.\<close>

definition bare_container :: container where
  "bare_container =
     \<lparr>link_href = None, title_strong = None, title_h3 = None, short_info = None,
      rating_small = None, short_info_price = None, clock = str ''2026-01-01T00:00:00''\<rparr>"

text \<open>
  \<open>str.lower\<close> and \<open>\w\<close> on the code points below 256 (Latin-1), for examples whose texts
  stay in that range; code points from 256 on are left alone and count as no word character.
\<close>

definition latin1_lower :: "ustr \<Rightarrow> ustr" where
  "latin1_lower s =
     map (\<lambda>c. if (65 \<le> c \<and> c \<le> 90) \<or> (192 \<le> c \<and> c \<le> 222 \<and> c \<noteq> 215) then c + 32 else c) s"

definition latin1_word :: "nat \<Rightarrow> bool" where
  "latin1_word c \<longleftrightarrow>
     (48 \<le> c \<and> c \<le> 57) \<or> (65 \<le> c \<and> c \<le> 90) \<or> c = 95 \<or> (97 \<le> c \<and> c \<le> 122) \<or>
     c = 170 \<or> c = 178 \<or> c = 179 \<or> c = 181 \<or> c = 185 \<or> c = 186 \<or> (188 \<le> c \<and> c \<le> 190) \<or>
     (192 \<le> c \<and> c \<le> 255 \<and> c \<noteq> 215 \<and> c \<noteq> 247)"

definition latin1 :: pyrt where
  "latin1 = \<lparr>str_lower = latin1_lower, re_word = latin1_word\<rparr>"

text \<open>
  \<open>first_occurrences xs\<close> keeps the first occurrence of every element of \<open>xs\<close>, in the
  order of \<open>xs\<close>. \<open>listed_event cs u\<close> is the record built from the first container of
  \<open>cs\<close> that resolves to the URL \<open>u\<close>.
\<close>

definition first_occurrences :: "'a list \<Rightarrow> 'a list" where
  "first_occurrences xs = rev (remdups (rev xs))"

definition listed_event :: "container list \<Rightarrow> ustr \<Rightarrow> event option" where
  "listed_event cs u =
     (case find (\<lambda>c. resolved_url c = Some u) cs of
        Some c \<Rightarrow> Some (new_event c u)
      | None \<Rightarrow> None)"

text \<open>
  Three sites for the examples: one where every navigation fails, one where every page loads
  and has no block at all, and one where every page loads and every query returns a single
  block with an address in Sfax. \<open>soiree_title\<close> is the title \<open>Soir\<eacute>e \<agrave> Monastir\<close>.
\<close>

definition unreachable_site :: site where
  "unreachable_site = (\<lambda>u. \<lparr>goto_ok = False, query_all = (\<lambda>sel. None)\<rparr>)"

definition blank_site :: site where
  "blank_site = (\<lambda>u. \<lparr>goto_ok = True, query_all = (\<lambda>sel. Some [])\<rparr>)"

definition sfax_site :: site where
  "sfax_site =
     (\<lambda>u. \<lparr>goto_ok = True, query_all = (\<lambda>sel. Some [Some (str ''Avenue Bourguiba, Sfax'')])\<rparr>)"

definition soiree_title :: ustr where
  "soiree_title = str ''Soir'' @ [233] @ str ''e '' @ [224] @ str '' Monastir''"

section \<open>models.py and routes/events.py\<close>

text \<open>
  A row of the table \<open>events\<close>, one field per column of \<open>models.Event\<close>. A field is
  \<open>None\<close> for SQL \<open>NULL\<close>, which is Python's \<open>None\<close>; the primary key and the two
  timestamps with a column default are \<open>None\<close> on an object that was built and not stored
  yet. A point in time is a number.
\<close>

type_synonym datetime = nat

record Event =
  event_id :: "nat option"
  name :: "ustr option"
  place :: "ustr option"
  date :: "ustr option"
  price :: "ustr option"
  url :: "ustr option"
  city :: "ustr option"
  status :: "ustr option"
  suggested_by_id :: "nat option"
  scraped_at :: "datetime option"
  created_at :: "datetime option"
  updated_at :: "datetime option"

text \<open>
  The session: the objects it holds, with the changes and additions that are not committed
  yet, and the rows of the last commit, to which \<open>db.session.rollback()\<close> returns.
\<close>

record session =
  objects :: "Event list"
  committed :: "Event list"

text \<open>
  \<open>db.session.add\<close> and an assignment to a field only change the objects of the session.
  The database sees the changes at the next flush, which the session runs before every query
  and at the commit, and the flush raises \<open>IntegrityError\<close> when a row breaks a constraint
  that \<open>models.py\<close> declares for the table: \<open>nullable=False\<close> on \<open>name\<close>, \<open>url\<close> and
  \<open>city\<close>, and \<open>unique=True\<close> on \<open>url\<close>. Other clients of the database are not part of
  the model.
\<close>

definition not_null_ok :: "Event \<Rightarrow> bool" where
  "not_null_ok e \<longleftrightarrow> name e \<noteq> None \<and> url e \<noteq> None \<and> city e \<noteq> None"

definition flush_raises :: "session \<Rightarrow> bool" where
  "flush_raises s \<longleftrightarrow> \<not> (list_all not_null_ok (objects s) \<and> distinct (map url (objects s)))"

text \<open>
  A row that \<open>csv.DictReader\<close> yields is a dict from the column names of the file to
  strings; the value is \<open>None\<close> for a column that a short line does not reach.
\<close>

type_synonym csv_row = "ustr \<rightharpoonup> ustr option"

record import_state =
  db :: session
  imported :: int
  skipped :: int
  errors :: "ustr list"

text \<open>\<open>s.replace('Z', '+00:00')\<close>.\<close>

definition replace_Z :: "ustr \<Rightarrow> ustr" where
  "replace_Z s = concat (map (\<lambda>ch. if ch = 90 then str ''+00:00'' else [ch]) s)"

text \<open>
  The variable \<open>scraped_at\<close> of the loop body. \<open>datetime.fromisoformat\<close> and the clock are
  parameters: \<open>fromisoformat s\<close> is \<open>None\<close> when the call raises, \<open>utcnow\<close> is what
  \<open>datetime.utcnow()\<close> returns.
\<close>

definition parse_scraped_at ::
    "(ustr \<Rightarrow> datetime option) \<Rightarrow> datetime \<Rightarrow> csv_row \<Rightarrow> datetime option" where
  "parse_scraped_at fromisoformat utcnow row =
     (case dict_get row (str ''scraped_at'') None of
        None \<Rightarrow> None
      | Some s \<Rightarrow>
          if s = [] then None
          else (case fromisoformat (replace_Z s) of
                  Some t \<Rightarrow> Some t
                | None \<Rightarrow> Some utcnow))"

text \<open>The branch \<open>if existing:\<close>, on the object found.\<close>

definition update_existing :: "datetime \<Rightarrow> csv_row \<Rightarrow> datetime option \<Rightarrow> Event \<Rightarrow> Event" where
  "update_existing utcnow row scraped existing =
     (let e1 = existing\<lparr>name := dict_get row (str ''name'') (name existing)\<rparr>;
          e2 = e1\<lparr>place := dict_get row (str ''place'') (place e1)\<rparr>;
          e3 = e2\<lparr>date := dict_get row (str ''date'') (date e2)\<rparr>;
          e4 = e3\<lparr>price := dict_get row (str ''price'') (price e3)\<rparr>;
          e5 = e4\<lparr>city := dict_get row (str ''city'') (city e4)\<rparr>;
          e6 = e5\<lparr>updated_at := Some utcnow\<rparr>;
          e7 = e6\<lparr>status := Some (str ''approved'')\<rparr>
      in case scraped of
           Some t \<Rightarrow> e7\<lparr>scraped_at := Some t\<rparr>
         | None \<Rightarrow> e7)"

text \<open>The object built in the branch \<open>else:\<close>.\<close>

definition created_event :: "datetime \<Rightarrow> csv_row \<Rightarrow> datetime option \<Rightarrow> Event" where
  "created_event utcnow row scraped =
     \<lparr>event_id = None,
      name = dict_get row (str ''name'') (Some (str ''Unknown'')),
      place = dict_get row (str ''place'') (Some (str ''N/A'')),
      date = dict_get row (str ''date'') (Some (str ''N/A'')),
      price = dict_get row (str ''price'') (Some (str ''N/A'')),
      url = dict_get row (str ''url'') (Some []),
      city = dict_get row (str ''city'') (Some (str ''Unknown'')),
      status = Some (str ''approved''),
      suggested_by_id = None,
      scraped_at = Some (case scraped of Some t \<Rightarrow> t | None \<Rightarrow> utcnow),
      created_at = None,
      updated_at = None\<rparr>"

text \<open>
  The object \<open>Event.query.filter_by(url=...).first()\<close> returns is changed in place: the
  first row that satisfies \<open>P\<close> is replaced by its image under \<open>f\<close>.
\<close>

fun update_first :: "('a \<Rightarrow> bool) \<Rightarrow> ('a \<Rightarrow> 'a) \<Rightarrow> 'a list \<Rightarrow> 'a list" where
  "update_first P f [] = []"
| "update_first P f (x # xs) = (if P x then f x # xs else x # update_first P f xs)"

text \<open>
  One iteration of the loop over the CSV rows. The query comes first and flushes what the
  rows before left in the session; when that flush raises \<open>IntegrityError\<close>, the handler of
  the loop rolls the session back and counts the row at hand as skipped, and neither branch
  runs for it. Exceptions other than \<open>IntegrityError\<close> need a failure of the database itself
  and are not modelled, so \<open>errors\<close> stays as it is.
\<close>

definition import_row ::
    "(ustr \<Rightarrow> datetime option) \<Rightarrow> datetime \<Rightarrow> csv_row \<Rightarrow> import_state \<Rightarrow> import_state" where
  "import_row fromisoformat utcnow row st =
     (let scraped = parse_scraped_at fromisoformat utcnow row;
          same_url = (\<lambda>e. url e = dict_get row (str ''url'') (Some []))
      in if flush_raises (db st) then
           st\<lparr>db := (db st)\<lparr>objects := committed (db st)\<rparr>,
              skipped := skipped st + 1\<rparr>
         else
           case find same_url (objects (db st)) of
             Some existing \<Rightarrow>
               st\<lparr>db := (db st)\<lparr>objects :=
                      update_first same_url (update_existing utcnow row scraped) (objects (db st))\<rparr>,
                  skipped := skipped st + 1\<rparr>
           | None \<Rightarrow>
               st\<lparr>db := (db st)\<lparr>objects := objects (db st) @ [created_event utcnow row scraped]\<rparr>,
                  imported := imported st + 1\<rparr>)"

text \<open>
  \<open>handle_csv_import\<close>, on the rows of the file, or \<open>None\<close> when the file does not exist:
  the loop, then the commit. A commit whose flush raises falls to the outer handler, which
  rolls back and aborts with status 500; otherwise the response carries the counters, and
  \<open>updated\<close> is the variable \<open>skipped\<close>.
\<close>

record response =
  resp_imported :: int
  resp_updated :: int
  resp_errors :: "ustr list option"

datatype reply = Abort nat | Success response

definition handle_csv_import ::
    "(ustr \<Rightarrow> datetime option) \<Rightarrow> datetime \<Rightarrow> session \<Rightarrow> csv_row list option \<Rightarrow>
     session \<times> reply" where
  "handle_csv_import fromisoformat utcnow s file =
     (case file of
        None \<Rightarrow> (s, Abort 404)
      | Some rws \<Rightarrow>
          let st = fold (import_row fromisoformat utcnow) rws
                     \<lparr>db = s, imported = 0, skipped = 0, errors = []\<rparr>
          in if flush_raises (db st) then ((db st)\<lparr>objects := committed (db st)\<rparr>, Abort 500)
             else ((db st)\<lparr>committed := objects (db st)\<rparr>,
                   Success \<lparr>resp_imported = imported st, resp_updated = skipped st,
                            resp_errors = (if errors st = [] then None else Some (errors st))\<rparr>))"

text \<open>
  For the examples: a stored event that a user suggested and that awaits approval, a session
  that holds it, a CSV row with the same URL, a CSV row with another URL, a short CSV row
  with a third URL and no name, and a \<open>fromisoformat\<close> that always raises.
\<close>

definition pending_event :: Event where
  "pending_event =
     \<lparr>event_id = Some 7, name = Some (str ''Gala''), place = Some (str ''TBD''),
      date = Some (str ''TBD''), price = Some (str ''TBD''),
      url = Some (str ''https://teskerti.tn/event/1''), city = Some (str ''Sfax''),
      status = Some (str ''pending''), suggested_by_id = Some 3, scraped_at = Some 1,
      created_at = Some 1, updated_at = Some 1\<rparr>"

definition pending_session :: session where
  "pending_session = \<lparr>objects = [pending_event], committed = [pending_event]\<rparr>"


definition other_url_row :: csv_row where
  "other_url_row =
     [str ''url'' \<mapsto> Some (str ''https://teskerti.tn/event/2''),
      str ''name'' \<mapsto> Some (str ''Bal'')]"

definition short_row :: csv_row where
  "short_row = [str ''url'' \<mapsto> Some (str ''https://teskerti.tn/event/3''), str ''name'' \<mapsto> None]"

definition never_parses :: "ustr \<Rightarrow> datetime option" where
  "never_parses s = None"

section \<open>Facts about the tables and the dict operations\<close>

lemma keys_map_entry: "keys (AList.map_entry k f d) = keys d"
  by (induction d) (auto simp: keys_def)

lemma sum_map_entry_incr:
  "k \<in> set (keys d) \<Longrightarrow>
   sum_list (map snd (AList.map_entry k (\<lambda>v. v + 1) d)) = sum_list (map snd d) + (1::int)"
  by (induction d) (auto simp: keys_def)

lemma table_identity: "list_all (\<lambda>(k, v). k = v) CITY_TO_GOVERNORATE"
  by (simp add: CITY_TO_GOVERNORATE_def)

lemma normalise_id: "dict_get (map_of CITY_TO_GOVERNORATE) c c = c"
proof (cases "map_of CITY_TO_GOVERNORATE c")
  case None
  then show ?thesis by (simp add: dict_get_def)
next
  case (Some v)
  then have "(c, v) \<in> set CITY_TO_GOVERNORATE" by (rule map_of_SomeD)
  with table_identity have "c = v" unfolding list_all_iff by fast
  with Some show ?thesis by (simp add: dict_get_def)
qed

lemma distinct_governorates: "distinct TUNISIAN_GOVERNORATES"
  by (simp add: TUNISIAN_GOVERNORATES_def str_def)

lemma length_governorates: "length TUNISIAN_GOVERNORATES = 24"
  by (simp add: TUNISIAN_GOVERNORATES_def)

lemma governorate_not_skipped: "list_all (\<lambda>g. \<not> skipped_city g) TUNISIAN_GOVERNORATES"
  by (simp add: TUNISIAN_GOVERNORATES_def skipped_city_def str_def)

lemma in_taxonomy_not_skipped: "g \<in> set TUNISIAN_GOVERNORATES \<Longrightarrow> \<not> skipped_city g"
  using governorate_not_skipped unfolding list_all_iff by fast

lemma resolves_iff: "resolves_to_bucket ev \<longleftrightarrow> city_of ev \<in> set TUNISIAN_GOVERNORATES"
  using in_taxonomy_not_skipped [of "city_of ev"]
  by (auto simp: resolves_to_bucket_def normalise_id)

lemma score_step_cases:
  "score_step ev d =
     (if \<not> skipped_city (city_of ev) \<and> city_of ev \<in> set (keys d)
      then AList.map_entry (city_of ev) (\<lambda>v. v + 1) d else d)"
  by (simp add: score_step_def Let_def normalise_id)

lemma keys_score_step: "keys (score_step ev d) = keys d"
  by (simp add: score_step_cases keys_map_entry)

lemma keys_fold_score_step: "keys (fold score_step evs d) = keys d"
  by (induction evs arbitrary: d) (simp_all add: keys_score_step)

lemma keys_init: "keys (map (\<lambda>gov. (gov, v)) gs) = gs"
  by (simp add: keys_def comp_def)

lemma keys_scores: "keys (calculate_governorate_scores evs) = TUNISIAN_GOVERNORATES"
  by (simp add: calculate_governorate_scores_def keys_fold_score_step keys_init)

lemma sum_score_step:
  assumes "keys d = TUNISIAN_GOVERNORATES"
  shows "sum_list (map snd (score_step ev d)) =
         sum_list (map snd d) + (if resolves_to_bucket ev then 1 else 0)"
  using assms in_taxonomy_not_skipped [of "city_of ev"]
  by (simp add: score_step_cases resolves_iff sum_map_entry_incr)

lemma sum_fold_score_step:
  "keys d = TUNISIAN_GOVERNORATES \<Longrightarrow>
   sum_list (map snd (fold score_step evs d)) =
   sum_list (map snd d) + int (length (filter resolves_to_bucket evs))"
proof (induction evs arbitrary: d)
  case Nil
  then show ?case by simp
next
  case (Cons ev evs)
  have "keys (score_step ev d) = TUNISIAN_GOVERNORATES"
    using Cons.prems by (simp add: keys_score_step)
  from Cons.IH [OF this] show ?case
    using Cons.prems by (simp add: sum_score_step)
qed

lemma score_step_unresolved:
  "keys d = TUNISIAN_GOVERNORATES \<Longrightarrow> \<not> resolves_to_bucket ev \<Longrightarrow> score_step ev d = d"
  by (simp add: score_step_cases resolves_iff)

lemma sentinel_unresolved:
  assumes "dict_get ev (str ''city'') [] \<in> set [[], str ''Unknown'', str ''Error'', str ''Pending'']"
  shows "skipped_city (city_of ev)"
proof -
  have "list_all (\<lambda>c. skipped_city (strip c)) [[], str ''Unknown'', str ''Error'', str ''Pending'']"
    by (simp add: skipped_city_def strip_def str_def isspace_def)
  with assms show ?thesis unfolding list_all_iff city_of_def by fast
qed

lemma heat_step_cases:
  "heat_step ev d =
     (if \<not> skipped_city (city_of ev) \<and> city_of ev \<in> set (keys d)
      then AList.map_entry (city_of ev) (add_event ev) d else d)"
  by (auto simp: heat_step_def Let_def target_gov_def normalise_id skipped_city_def)

lemma keys_heat_step: "keys (heat_step ev d) = keys d"
  by (simp add: heat_step_cases keys_map_entry)

lemma keys_fold_heat_step: "keys (fold heat_step evs d) = keys d"
  by (induction evs arbitrary: d) (simp_all add: keys_heat_step)

lemma keys_heatmap: "keys (get_heatmap_data evs) = TUNISIAN_GOVERNORATES"
  by (simp add: get_heatmap_data_def keys_fold_heat_step keys_init)

lemma table_keys_sub: "list_all (\<lambda>k. k \<in> set TUNISIAN_GOVERNORATES) (keys CITY_TO_GOVERNORATE)"
  by (simp add: keys_def CITY_TO_GOVERNORATE_def TUNISIAN_GOVERNORATES_def)

lemma table_keys_sup: "list_all (\<lambda>g. g \<in> set (keys CITY_TO_GOVERNORATE)) TUNISIAN_GOVERNORATES"
  by (simp add: keys_def CITY_TO_GOVERNORATE_def TUNISIAN_GOVERNORATES_def)

lemma table_keys: "set (keys CITY_TO_GOVERNORATE) = set TUNISIAN_GOVERNORATES"
  using table_keys_sub table_keys_sup unfolding list_all_iff by fast

lemma table_values: "map snd CITY_TO_GOVERNORATE = keys CITY_TO_GOVERNORATE"
  by (simp add: keys_def CITY_TO_GOVERNORATE_def)

lemma score_step_simplified_eq: "score_step_simplified ev d = score_step ev d"
  by (simp add: score_step_simplified_def score_step_def Let_def normalise_id)

lemma matching_events_Cons:
  "matching_events g [] = []"
  "matching_events g (ev # evs) =
     (if city_of ev = g \<and> \<not> skipped_city g then ev # matching_events g evs
      else matching_events g evs)"
  by (auto simp: matching_events_def normalise_id)

lemma add_event_bucket_for: "add_event ev (bucket_for pre) = bucket_for (pre @ [ev])"
  by (simp add: add_event_def bucket_for_def Let_def min_def add.commute)

lemma fold_add_event: "fold add_event ms (bucket_for pre) = bucket_for (pre @ ms)"
  by (induction ms arbitrary: pre) (simp_all add: add_event_bucket_for)

lemma empty_bucket_for: "empty_bucket = bucket_for []"
  by (simp add: empty_bucket_def bucket_for_def)

lemma map_of_keys: "map_of d g \<noteq> None \<longleftrightarrow> g \<in> set (keys d)"
  by (simp add: keys_def map_of_eq_None_iff)

lemma map_of_heat_step:
  assumes "map_of d g = Some (bucket_for pre)"
  shows "map_of (heat_step ev d) g = Some (bucket_for (pre @ matching_events g [ev]))"
proof (cases "\<not> skipped_city (city_of ev) \<and> city_of ev \<in> set (keys d)")
  case False
  have "g \<in> set (keys d)" using assms map_of_keys [of d g] by simp
  with False have "matching_events g [ev] = []"
    by (auto simp: matching_events_def normalise_id)
  with False assms show ?thesis by (auto simp: heat_step_cases)
next
  case True
  then show ?thesis using assms
    by (auto simp: heat_step_cases map_of_map_entry matching_events_def normalise_id
        add_event_bucket_for)
qed

lemma map_of_fold_heat_step:
  "map_of d g = Some (bucket_for pre) \<Longrightarrow>
   map_of (fold heat_step evs d) g = Some (bucket_for (pre @ matching_events g evs))"
proof (induction evs arbitrary: d pre)
  case Nil
  then show ?case by (simp add: matching_events_def)
next
  case (Cons ev evs)
  from map_of_heat_step [OF Cons.prems]
  have "map_of (heat_step ev d) g = Some (bucket_for (pre @ matching_events g [ev]))" .
  from Cons.IH [OF this] show ?case by (simp add: matching_events_def)
qed

lemma map_of_init: "g \<in> set gs \<Longrightarrow> map_of (map (\<lambda>gov. (gov, v)) gs) g = Some v"
  by (induction gs) auto

lemma nonneg_map_entry:
  "list_all (\<lambda>p. 0 \<le> snd p) d \<Longrightarrow> list_all (\<lambda>p. 0 \<le> snd p) (AList.map_entry k (\<lambda>v. v + (1::int)) d)"
  by (induction d) auto

lemma nonneg_score_step:
  "list_all (\<lambda>p. 0 \<le> snd p) d \<Longrightarrow> list_all (\<lambda>p. 0 \<le> snd p) (score_step ev d)"
  by (simp add: score_step_cases nonneg_map_entry)

lemma nonneg_fold_score_step:
  "list_all (\<lambda>p. 0 \<le> snd p) d \<Longrightarrow> list_all (\<lambda>p. 0 \<le> snd p) (fold score_step evs d)"
  by (induction evs arbitrary: d) (simp_all add: nonneg_score_step)

lemma nonneg_scores: "list_all (\<lambda>p. 0 \<le> snd p) (calculate_governorate_scores evs)"
proof -
  have "list_all (\<lambda>p. 0 \<le> snd p) (map (\<lambda>gov. (gov, 0::int)) TUNISIAN_GOVERNORATES)"
    by (simp add: list_all_iff)
  then show ?thesis
    unfolding calculate_governorate_scores_def by (rule nonneg_fold_score_step)
qed

lemma count_positive:
  "list_all (\<lambda>p. 0 \<le> snd p) d \<Longrightarrow>
   length (filter (\<lambda>v. v > 0) (map snd d)) = length (filter (\<lambda>(g, v). v \<noteq> (0::int)) d)"
  by (induction d) auto

lemma names_positive:
  "distinct (keys d) \<Longrightarrow> list_all (\<lambda>p. 0 \<le> snd p) d \<Longrightarrow>
   map fst (filter (\<lambda>(g, v). v > 0) d) =
   filter (\<lambda>g. dict_get (map_of d) g 0 \<noteq> (0::int)) (keys d)"
proof (induction d)
  case Nil
  then show ?case by (simp add: keys_def)
next
  case (Cons p d)
  obtain k v where p: "p = (k, v)" by (cases p)
  from Cons.prems p have k: "k \<notin> set (keys d)" and dd: "distinct (keys d)"
    and nn: "list_all (\<lambda>p. 0 \<le> snd p) d" and v: "0 \<le> v"
    by (simp_all add: keys_def)
  have "filter (\<lambda>g. dict_get (map_of (p # d)) g 0 \<noteq> 0) (keys d)
      = filter (\<lambda>g. dict_get (map_of d) g 0 \<noteq> 0) (keys d)"
    using k by (intro filter_cong) (auto simp: p dict_get_def)
  with Cons.IH [OF dd nn] v show ?case
    by (auto simp: p keys_def dict_get_def)
qed

subsection \<open>The listing loop\<close>

lemma url_new_event: "new_event c href (str ''url'') = Some href"
  by (simp add: new_event_def str_def)

lemma name_new_event: "\<exists>n. new_event c href (str ''name'') = Some n"
  by (simp add: new_event_def str_def)

lemma remdups_snoc: "remdups (xs @ [u]) = remdups (filter (\<lambda>y. y \<noteq> u) xs) @ [u]"
  by (induction xs) auto

lemma first_occurrences_Cons:
  "first_occurrences (u # xs) = u # first_occurrences (filter (\<lambda>y. y \<noteq> u) xs)"
  by (simp add: first_occurrences_def remdups_snoc rev_filter)

lemma first_occurrences_Nil: "first_occurrences [] = []"
  by (simp add: first_occurrences_def)

lemma set_first_occurrences: "set (first_occurrences xs) = set xs"
  by (simp add: first_occurrences_def)

lemma distinct_first_occurrences: "distinct (first_occurrences xs)"
  by (simp add: first_occurrences_def)

lemma resolved_url_absolute_href:
  "resolved_url c =
     (case link_href c of
        Some (Some h) \<Rightarrow> if h = [] then None else Some (absolute_href h)
      | _ \<Rightarrow> None)"
  by (simp add: resolved_url_def absolute_href_def split: option.splits)

lemma crawl_acc: "crawl cs evs seen = evs @ crawl cs [] seen"
proof (induction cs arbitrary: evs seen)
  case Nil
  then show ?case by simp
next
  case (Cons c cs)
  show ?case
  proof (cases "resolved_url c")
    case None
    then show ?thesis using Cons.IH [of evs seen]
      by (auto simp: resolved_url_absolute_href split: option.splits if_splits)
  next
    case (Some u)
    then obtain h where h: "link_href c = Some (Some h)" "h \<noteq> []" "u = absolute_href h"
      by (auto simp: resolved_url_absolute_href split: option.splits if_splits)
    show ?thesis
      using h Cons.IH [of evs seen] Cons.IH [of "evs @ [new_event c u]" "insert u seen"]
        Cons.IH [of "[new_event c u]" "insert u seen"]
      by (simp add: Let_def)
  qed
qed

lemma crawl_Cons:
  "crawl (c # cs) [] seen =
     (case resolved_url c of
        None \<Rightarrow> crawl cs [] seen
      | Some u \<Rightarrow> if u \<in> seen then crawl cs [] seen
                  else new_event c u # crawl cs [] (insert u seen))"
  using crawl_acc [of cs "[new_event c (absolute_href h)]" "insert (absolute_href h) seen" for h]
  by (auto simp: resolved_url_absolute_href Let_def split: option.splits)

lemma map_filter_Cons:
  "List.map_filter f (x # xs) = (case f x of None \<Rightarrow> List.map_filter f xs | Some y \<Rightarrow> y # List.map_filter f xs)"
  by (simp add: List.map_filter_def split: option.splits)

lemma listed_event_skip:
  "resolved_url c \<noteq> Some u \<Longrightarrow> listed_event (c # cs) u = listed_event cs u"
  by (simp add: listed_event_def)

lemma listed_event_hit:
  "resolved_url c = Some u \<Longrightarrow> listed_event (c # cs) u = Some (new_event c u)"
  by (simp add: listed_event_def)

lemma map_listed_event_skip:
  assumes "\<And>u. u \<in> set xs \<Longrightarrow> resolved_url c \<noteq> Some u"
  shows "map (listed_event (c # cs)) xs = map (listed_event cs) xs"
  using assms by (intro map_cong refl listed_event_skip) blast

lemma filter_seen:
  "filter (\<lambda>y. y \<noteq> u) (filter (\<lambda>v. v \<notin> seen) xs) = filter (\<lambda>v. v \<notin> insert u seen) xs"
  by (induction xs) auto

lemma crawl_listed:
  "map Some (crawl cs [] seen) =
   map (listed_event cs)
     (first_occurrences (filter (\<lambda>u. u \<notin> seen) (List.map_filter resolved_url cs)))"
proof (induction cs arbitrary: seen)
  case Nil
  then show ?case by (simp add: List.map_filter_def first_occurrences_Nil)
next
  case (Cons c cs)
  show ?case
  proof (cases "resolved_url c")
    case None
    have "map (listed_event (c # cs)) xs = map (listed_event cs) xs" for xs
      using None by (intro map_listed_event_skip) simp
    with None Cons.IH [of seen] show ?thesis
      by (simp add: crawl_Cons map_filter_Cons del: crawl.simps(2))
  next
    case (Some u)
    show ?thesis
    proof (cases "u \<in> seen")
      case True
      have "map (listed_event (c # cs))
              (first_occurrences (filter (\<lambda>v. v \<notin> seen) (List.map_filter resolved_url cs)))
          = map (listed_event cs)
              (first_occurrences (filter (\<lambda>v. v \<notin> seen) (List.map_filter resolved_url cs)))"
        using True Some by (intro map_listed_event_skip) (auto simp: set_first_occurrences)
      with Some True Cons.IH [of seen] show ?thesis
        by (simp add: crawl_Cons map_filter_Cons del: crawl.simps(2))
    next
      case False
      have "map (listed_event (c # cs))
              (first_occurrences (filter (\<lambda>v. v \<notin> insert u seen) (List.map_filter resolved_url cs)))
          = map (listed_event cs)
              (first_occurrences (filter (\<lambda>v. v \<notin> insert u seen) (List.map_filter resolved_url cs)))"
        using Some by (intro map_listed_event_skip) (auto simp: set_first_occurrences)
      then have tl: "map Some (crawl cs [] (insert u seen))
          = map (listed_event (c # cs))
              (first_occurrences (filter (\<lambda>v. v \<notin> insert u seen) (List.map_filter resolved_url cs)))"
        using Cons.IH [of "insert u seen"] by (simp only:)
      have step: "crawl (c # cs) [] seen = new_event c u # crawl cs [] (insert u seen)"
        using Some False by (simp add: crawl_Cons del: crawl.simps(2))
      have mf: "List.map_filter resolved_url (c # cs) = u # List.map_filter resolved_url cs"
        using Some by (simp add: map_filter_Cons)
      have fl: "filter (\<lambda>v. v \<notin> seen) (u # xs) = u # filter (\<lambda>v. v \<notin> seen) xs" for xs
        using False by simp
      have R: "first_occurrences (filter (\<lambda>v. v \<notin> seen) (List.map_filter resolved_url (c # cs)))
          = u # first_occurrences
                  (filter (\<lambda>v. v \<notin> insert u seen) (List.map_filter resolved_url cs))"
        by (simp only: mf fl first_occurrences_Cons filter_seen)
      show ?thesis
        by (simp only: step R list.map tl listed_event_hit [OF Some])
    qed
  qed
qed

lemma listed_event_url: "listed_event cs u = Some ev \<Longrightarrow> ev (str ''url'') = Some u"
  by (auto simp: listed_event_def url_new_event split: option.splits)

lemma crawl_has_keys:
  "ev \<in> set (crawl cs [] seen) \<Longrightarrow> ev (str ''url'') \<noteq> None \<and> ev (str ''name'') \<noteq> None"
proof (induction cs arbitrary: seen)
  case Nil
  then show ?case by simp
next
  case (Cons c cs)
  then show ?case
    by (auto simp: crawl_Cons url_new_event name_new_event simp del: crawl.simps(2) split: option.splits if_splits)
qed

lemma crawl_urls:
  "map (\<lambda>ev. ev (str ''url'')) (crawl cs [] seen) =
   map Some (first_occurrences (filter (\<lambda>u. u \<notin> seen) (List.map_filter resolved_url cs)))"
proof -
  have "map (\<lambda>ev. ev (str ''url'')) (crawl cs [] seen)
      = map (\<lambda>x. case x of None \<Rightarrow> None | Some ev \<Rightarrow> ev (str ''url'')) (map Some (crawl cs [] seen))"
    by (simp add: comp_def)
  also have "\<dots> = map (\<lambda>u. case listed_event cs u of None \<Rightarrow> None | Some ev \<Rightarrow> ev (str ''url''))
      (first_occurrences (filter (\<lambda>u. u \<notin> seen) (List.map_filter resolved_url cs)))"
    unfolding crawl_listed by (simp add: comp_def)
  also have "\<dots> = map Some
      (first_occurrences (filter (\<lambda>u. u \<notin> seen) (List.map_filter resolved_url cs)))"
  proof (intro map_cong refl)
    fix u assume "u \<in> set (first_occurrences (filter (\<lambda>u. u \<notin> seen) (List.map_filter resolved_url cs)))"
    then have "u \<in> set (List.map_filter resolved_url cs)"
      by (simp add: set_first_occurrences)
    then obtain c where "c \<in> set cs" "resolved_url c = Some u"
      by (auto simp: List.map_filter_def)
    then have "find (\<lambda>c. resolved_url c = Some u) cs \<noteq> None"
      by (auto simp: find_None_iff)
    then show "(case listed_event cs u of None \<Rightarrow> None | Some ev \<Rightarrow> ev (str ''url'')) = Some u"
      by (auto simp: listed_event_def url_new_event)
  qed
  finally show ?thesis .
qed


lemma assign_city_Some:
  "ev (str ''url'') = Some u \<Longrightarrow> ev (str ''name'') = Some n \<Longrightarrow>
   assign_city rt web ev =
     Some (ev(str ''city'' \<mapsto>
       (if extract_city_from_event_page rt web u (Some n) = str ''Unknown'' then str ''Tunis''
        else extract_city_from_event_page rt web u (Some n))))"
  by (simp add: assign_city_def Let_def)

lemma city_not_url: "str ''city'' \<noteq> str ''url''"
  by (simp add: str_def)

lemma assign_cities_total:
  assumes "\<And>ev. ev \<in> set evs \<Longrightarrow> ev (str ''url'') \<noteq> None \<and> ev (str ''name'') \<noteq> None"
  shows "\<exists>evs'. assign_cities rt web evs = Some evs'
          \<and> list_all2 (\<lambda>ev ev'. \<exists>cty. ev' = ev(str ''city'' \<mapsto> cty)) evs evs'"
  using assms
proof (induction evs)
  case Nil
  then show ?case by simp
next
  case (Cons ev evs)
  from Cons.prems [of ev] obtain u n where k: "ev (str ''url'') = Some u" "ev (str ''name'') = Some n"
    by auto
  have "\<And>e. e \<in> set evs \<Longrightarrow> e (str ''url'') \<noteq> None \<and> e (str ''name'') \<noteq> None"
    using Cons.prems by simp
  from Cons.IH [OF this] obtain evs' where tl:
    "assign_cities rt web evs = Some evs'"
    "list_all2 (\<lambda>ev ev'. \<exists>cty. ev' = ev(str ''city'' \<mapsto> cty)) evs evs'"
    by blast
  let ?ev' = "ev(str ''city'' \<mapsto>
       (if extract_city_from_event_page rt web u (Some n) = str ''Unknown'' then str ''Tunis''
        else extract_city_from_event_page rt web u (Some n)))"
  have "assign_cities rt web (ev # evs) = Some (?ev' # evs')"
    by (simp add: assign_city_Some [OF k] tl(1))
  moreover have "list_all2 (\<lambda>ev ev'. \<exists>cty. ev' = ev(str ''city'' \<mapsto> cty)) (ev # evs) (?ev' # evs')"
    using tl(2) by (intro list_all2_Cons [THEN iffD2] conjI exI [of _ "if extract_city_from_event_page rt web u (Some n) = str ''Unknown'' then str ''Tunis''
        else extract_city_from_event_page rt web u (Some n)"] refl)
  ultimately show ?case by blast
qed

lemma city_update_keeps_urls:
  "list_all2 (\<lambda>ev ev'. \<exists>cty. ev' = ev(str ''city'' \<mapsto> cty)) evs evs' \<Longrightarrow>
   map (\<lambda>ev. ev (str ''url'')) evs' = map (\<lambda>ev. ev (str ''url'')) evs"
  by (induction rule: list_all2_induct) (auto simp: city_not_url [symmetric])

subsection \<open>The resolver and the second loop\<close>

lemma error_city_skipped:
  assumes "x (str ''city'') = Some (str ''Error'')"
  shows "skipped_city (city_of x)"
  using assms by (intro sentinel_unresolved) (simp add: dict_get_def)

lemma score_step_skipped: "skipped_city (city_of x) \<Longrightarrow> score_step x d = d"
  by (simp add: score_step_cases)

lemma heat_step_skipped: "skipped_city (city_of x) \<Longrightarrow> heat_step x d = d"
  by (simp add: heat_step_cases)

lemma alias_cities_are_cities:
  "list_all (\<lambda>(k, c). c \<noteq> str ''Error'' \<and> c \<noteq> str ''Unknown'' \<and> c \<in> set TUNISIAN_CITIES) CITY_ALIASES"
  by (simp add: CITY_ALIASES_def TUNISIAN_CITIES_def str_def)

lemma title_tier_find:
  "n \<noteq> [] \<Longrightarrow>
   title_tier rt (Some n) =
     map_option snd (find (\<lambda>(k, c). re_search_word (re_word rt) k (str_lower rt n)) CITY_ALIASES)"
  by (simp add: title_tier_def)

lemma extract_title:
  "goto_ok (web event_url) \<Longrightarrow> title_tier rt nm = Some c \<Longrightarrow>
   extract_city_from_event_page rt web event_url nm = c"
  by (simp add: extract_city_from_event_page_def)

lemma extract_down:
  "\<not> goto_ok (web event_url) \<Longrightarrow>
   extract_city_from_event_page rt web event_url nm = str ''Error''"
  by (simp add: extract_city_from_event_page_def)



subsection \<open>The import loop\<close>



lemma pending_session_flushes: "\<not> flush_raises pending_session"
  by (simp add: flush_raises_def pending_session_def pending_event_def not_null_ok_def)

text \<open>
  What the loop does when an insert breaks a constraint. The short row has no name, so the
  object built for it cannot be stored. As the only row of the file it is counted as
  imported, the commit raises, and the import aborts with status 500. Followed by a second
  row, the flush before the query of that row raises: the session is rolled back, the second
  row is counted as updated and is neither looked up nor stored, and the short row stays
  counted as imported.
\<close>

lemma constraint_violation_at_commit:
  "handle_csv_import never_parses 5 pending_session (Some [short_row])
     = (pending_session, Abort 500)"
  by (simp add: handle_csv_import_def import_row_def Let_def pending_session_flushes)
     (simp add: flush_raises_def pending_session_def pending_event_def not_null_ok_def
        created_event_def short_row_def dict_get_def str_def)

lemma constraint_violation_at_next_row:
  "handle_csv_import never_parses 5 pending_session (Some [short_row, other_url_row])
     = (pending_session,
        Success \<lparr>resp_imported = 1, resp_updated = 1, resp_errors = None\<rparr>)"
proof -
  let ?st0 = "\<lparr>db = pending_session, imported = 0, skipped = 0, errors = []\<rparr>"
  have f: "find (\<lambda>e. url e = dict_get short_row (str ''url'') (Some [])) (objects pending_session)
      = None"
    by (simp add: pending_session_def pending_event_def short_row_def dict_get_def str_def)
  have s1: "import_row never_parses 5 short_row ?st0
      = \<lparr>db = pending_session\<lparr>objects := objects pending_session
                @ [created_event 5 short_row (parse_scraped_at never_parses 5 short_row)]\<rparr>,
         imported = 1, skipped = 0, errors = []\<rparr>"
    by (simp add: import_row_def Let_def pending_session_flushes f)
  have r: "flush_raises (pending_session\<lparr>objects := objects pending_session
                @ [created_event 5 short_row (parse_scraped_at never_parses 5 short_row)]\<rparr>)"
    by (simp add: flush_raises_def not_null_ok_def created_event_def short_row_def dict_get_def
        str_def)
  have c: "committed pending_session = objects pending_session"
    by (simp add: pending_session_def)
  show ?thesis
    by (simp add: handle_csv_import_def Let_def s1)
       (simp add: import_row_def Let_def r c pending_session_flushes)
qed

subsection \<open>What URL an item gets\<close>

lemma take4_origin: "take 4 (str ''https://teskerti.tn'' @ p) = str ''http''"
  by (simp add: str_def)

lemma crawl_single:
  "link_href a = Some (Some h) \<Longrightarrow> h \<noteq> [] \<Longrightarrow>
   crawl [a] [] {} =
     [new_event a (if take 4 h = str ''http'' then h else str ''https://teskerti.tn'' @ h)]"
  by (simp add: absolute_href_def Let_def)

lemma absolute_href_origin:
  "absolute_href (str ''https://teskerti.tn'' @ p) = str ''https://teskerti.tn'' @ p"
  unfolding absolute_href_def take4_origin by simp

lemma absolute_href_relative:
  "take 4 p \<noteq> str ''http'' \<Longrightarrow> absolute_href p = str ''https://teskerti.tn'' @ p"
  by (simp add: absolute_href_def)

lemma origin_not_empty: "str ''https://teskerti.tn'' @ p \<noteq> []"
  by (simp add: str_def)

lemma crawl_relative_absolute_pair:
  assumes "p \<noteq> []" "take 4 p \<noteq> str ''http''"
    and "link_href a = Some (Some p)"
    and "link_href b = Some (Some (str ''https://teskerti.tn'' @ p))"
  shows "crawl [a, b] [] {} = [new_event a (str ''https://teskerti.tn'' @ p)]"
    and "crawl [b, a] [] {} = [new_event b (str ''https://teskerti.tn'' @ p)]"
  using assms
  by (simp_all add: Let_def absolute_href_origin absolute_href_relative origin_not_empty)

lemma name_key_new_event: "new_event c href (str ''name'') = Some
        (case (case title_strong c of Some t \<Rightarrow> Some t | None \<Rightarrow> title_h3 c) of
           Some t \<Rightarrow> strip t | None \<Rightarrow> str ''Unknown'')"
  by (simp add: new_event_def str_def)

lemma scrape_single:
  "\<exists>ev. scrape_events rt web [a, b] = Some (map (\<lambda>e. e) [ev]) \<and> ev (str ''url'') = Some u"
  if "crawl [a, b] [] {} = [new_event a u]"
proof -
  obtain n where n: "new_event a u (str ''name'') = Some n"
    using name_new_event by blast
  show ?thesis
    unfolding scrape_events_def that
    by (simp add: assign_city_Some [OF url_new_event n] url_new_event city_not_url [symmetric])
qed

lemma crawl_three_items: "map (\<lambda>ev. ev (str ''url''))
        (crawl [c\<lparr>link_href := Some (Some (str ''/event/1''))\<rparr>,
                c\<lparr>link_href := Some (Some (str ''https://teskerti.tn/event/1''))\<rparr>,
                c\<lparr>link_href := Some (Some (str ''/event/2''))\<rparr>] [] {})
      = [Some (str ''https://teskerti.tn/event/1''), Some (str ''https://teskerti.tn/event/2'')]"
proof -
  have r1: "absolute_href (str ''/event/1'') = str ''https://teskerti.tn/event/1''"
    by (simp add: absolute_href_def str_def)
  have r2: "absolute_href (str ''https://teskerti.tn/event/1'') = str ''https://teskerti.tn/event/1''"
    by (simp add: absolute_href_def str_def)
  have r3: "absolute_href (str ''/event/2'') = str ''https://teskerti.tn/event/2''"
    by (simp add: absolute_href_def str_def)
  have ne: "str ''/event/1'' \<noteq> []" "str ''https://teskerti.tn/event/1'' \<noteq> []"
    "str ''/event/2'' \<noteq> []"
    "str ''https://teskerti.tn/event/2'' \<noteq> str ''https://teskerti.tn/event/1''"
    by (simp_all add: str_def)
  show ?thesis
    by (simp add: Let_def r1 r2 r3 ne url_new_event)
qed

subsection \<open>What the second loop stores\<close>

lemma scan_blocks_Found: "scan_blocks rt f bs = Found c \<Longrightarrow> \<exists>t. f t = Some c"
  by (induction bs) (auto split: option.splits)

lemma address_match_city: "address_match rt t = Some c \<Longrightarrow> c \<in> set TUNISIAN_CITIES"
  by (auto simp: address_match_def find_Some_iff dest: nth_mem)

lemma venue_cities_are_cities:
  "list_all (\<lambda>(v, c). c \<in> set TUNISIAN_CITIES) VENUE_CITY_MAP"
  by (simp add: VENUE_CITY_MAP_def TUNISIAN_CITIES_def str_def)

lemma venue_match_city:
  assumes "venue_match t = Some c"
  shows "c \<in> set TUNISIAN_CITIES"
proof -
  from assms obtain v where "(v, c) \<in> set VENUE_CITY_MAP"
    by (auto simp: venue_match_def find_Some_iff dest: nth_mem)
  with venue_cities_are_cities show ?thesis unfolding list_all_iff by fast
qed

lemma title_tier_city:
  assumes "title_tier rt nm = Some c"
  shows "c \<in> set TUNISIAN_CITIES"
proof -
  from assms obtain k where "(k, c) \<in> set CITY_ALIASES"
    by (auto simp: title_tier_def find_Some_iff split: option.splits if_splits dest: nth_mem)
  with alias_cities_are_cities show ?thesis unfolding list_all_iff by fast
qed

lemma address_tier_Found:
  "address_tier rt pg sels = Found c \<Longrightarrow> c \<in> set TUNISIAN_CITIES"
proof (induction sels)
  case Nil
  then show ?case by simp
next
  case (Cons sel sels)
  then show ?case
    by (auto split: option.splits outcome.splits dest: scan_blocks_Found address_match_city)
qed

lemma venue_tier_Found: "venue_tier rt pg = Found c \<Longrightarrow> c \<in> set TUNISIAN_CITIES"
  by (auto simp: venue_tier_def split: option.splits dest: scan_blocks_Found venue_match_city)

lemma extract_range:
  "extract_city_from_event_page rt web u nm = str ''Error''
   \<or> extract_city_from_event_page rt web u nm = str ''Unknown''
   \<or> extract_city_from_event_page rt web u nm \<in> set TUNISIAN_CITIES"
  by (auto simp: extract_city_from_event_page_def Let_def
      split: option.splits outcome.splits
      dest: title_tier_city address_tier_Found venue_tier_Found)

lemma cities_are_no_sentinels:
  "list_all (\<lambda>c. c \<noteq> str ''Unknown'' \<and> c \<noteq> str ''Pending'' \<and> c \<noteq> str ''Error'')
     TUNISIAN_CITIES"
  by (simp add: TUNISIAN_CITIES_def str_def)

lemma city_no_sentinel:
  "c \<in> set TUNISIAN_CITIES \<Longrightarrow>
   c \<noteq> str ''Unknown'' \<and> c \<noteq> str ''Pending'' \<and> c \<noteq> str ''Error''"
  using cities_are_no_sentinels unfolding list_all_iff by fast

lemma assign_cities_exact:
  assumes "\<And>ev. ev \<in> set evs \<Longrightarrow> ev (str ''url'') \<noteq> None \<and> ev (str ''name'') \<noteq> None"
  shows "\<exists>evs'. assign_cities rt web evs = Some evs'
          \<and> list_all2 (\<lambda>ev0 ev. \<exists>u n. ev0 (str ''url'') = Some u \<and> ev0 (str ''name'') = Some n
            \<and> ev = ev0(str ''city'' \<mapsto>
                 (if extract_city_from_event_page rt web u (Some n) = str ''Unknown''
                  then str ''Tunis'' else extract_city_from_event_page rt web u (Some n)))) evs evs'"
  using assms
proof (induction evs)
  case Nil
  then show ?case by simp
next
  case (Cons ev evs)
  from Cons.prems [of ev] obtain u n where k: "ev (str ''url'') = Some u" "ev (str ''name'') = Some n"
    by auto
  have "\<And>e. e \<in> set evs \<Longrightarrow> e (str ''url'') \<noteq> None \<and> e (str ''name'') \<noteq> None"
    using Cons.prems by simp
  from Cons.IH [OF this] obtain evs' where tl:
    "assign_cities rt web evs = Some evs'"
    "list_all2 (\<lambda>ev0 ev. \<exists>u n. ev0 (str ''url'') = Some u \<and> ev0 (str ''name'') = Some n
            \<and> ev = ev0(str ''city'' \<mapsto>
                 (if extract_city_from_event_page rt web u (Some n) = str ''Unknown''
                  then str ''Tunis'' else extract_city_from_event_page rt web u (Some n)))) evs evs'"
    by blast
  let ?ev' = "ev(str ''city'' \<mapsto>
       (if extract_city_from_event_page rt web u (Some n) = str ''Unknown'' then str ''Tunis''
        else extract_city_from_event_page rt web u (Some n)))"
  have "assign_cities rt web (ev # evs) = Some (?ev' # evs')"
    by (simp add: assign_city_Some [OF k] tl(1))
  moreover have "(\<lambda>ev0 ev. \<exists>u n. ev0 (str ''url'') = Some u \<and> ev0 (str ''name'') = Some n
            \<and> ev = ev0(str ''city'' \<mapsto>
                 (if extract_city_from_event_page rt web u (Some n) = str ''Unknown''
                  then str ''Tunis'' else extract_city_from_event_page rt web u (Some n)))) ev ?ev'"
    using k by blast
  then have "list_all2 (\<lambda>ev0 ev. \<exists>u n. ev0 (str ''url'') = Some u \<and> ev0 (str ''name'') = Some n
            \<and> ev = ev0(str ''city'' \<mapsto>
                 (if extract_city_from_event_page rt web u (Some n) = str ''Unknown''
                  then str ''Tunis'' else extract_city_from_event_page rt web u (Some n)))) (ev # evs) (?ev' # evs')"
    using tl(2) by (rule list_all2_Cons [THEN iffD2, OF conjI])
  ultimately show ?case by blast
qed

lemma list_all2_setD:
  "list_all2 R xs ys \<Longrightarrow> y \<in> set ys \<Longrightarrow> \<exists>x \<in> set xs. R x y"
  by (induction rule: list_all2_induct) auto

lemma stored_city_range:
  assumes "(\<lambda>ev0 ev. \<exists>u n. ev0 (str ''url'') = Some u \<and> ev0 (str ''name'') = Some n
            \<and> ev = ev0(str ''city'' \<mapsto>
                 (if extract_city_from_event_page rt web u (Some n) = str ''Unknown''
                  then str ''Tunis'' else extract_city_from_event_page rt web u (Some n)))) ev0 ev"
  shows "\<exists>cty. ev (str ''city'') = Some cty \<and> cty \<noteq> str ''Unknown'' \<and> cty \<noteq> str ''Pending''
           \<and> (cty = str ''Error'' \<or> cty \<in> set TUNISIAN_CITIES)"
proof -
  from assms obtain u n where e: "ev = ev0(str ''city'' \<mapsto>
       (if extract_city_from_event_page rt web u (Some n) = str ''Unknown'' then str ''Tunis''
        else extract_city_from_event_page rt web u (Some n)))"
    by blast
  have t: "str ''Tunis'' \<in> set TUNISIAN_CITIES" by (simp add: TUNISIAN_CITIES_def)
  have p: "str ''Error'' \<noteq> str ''Unknown''" "str ''Error'' \<noteq> str ''Pending''"
    by (simp_all add: str_def)
  from extract_range [of rt web u "Some n"] show ?thesis
    unfolding e using t p city_no_sentinel by auto
qed


lemma assign_city_stores:
  assumes "ev (str ''url'') = Some u" and "ev (str ''name'') = Some n"
    and "x (str ''city'') = Some (str ''Error'')"
  shows "\<exists>ev'. assign_city rt web ev = Some ev'
      \<and> (extract_city_from_event_page rt web u (Some n) = str ''Unknown''
           \<longrightarrow> ev' (str ''city'') = Some (str ''Tunis''))
      \<and> (extract_city_from_event_page rt web u (Some n) = str ''Error''
           \<longrightarrow> ev' (str ''city'') = Some (str ''Error'')
               \<and> score_step ev' scores = scores \<and> heat_step ev' heatmap_data = heatmap_data)
      \<and> (extract_city_from_event_page rt web u (Some n) \<noteq> str ''Unknown''
           \<longrightarrow> ev' (str ''city'') = Some (extract_city_from_event_page rt web u (Some n)))
      \<and> (\<forall>k. k \<noteq> str ''city'' \<longrightarrow> ev' k = ev k)
      \<and> score_step x scores = scores \<and> heat_step x heatmap_data = heatmap_data
      \<and> calculate_governorate_scores (es1 @ x # es2) = calculate_governorate_scores (es1 @ es2)
      \<and> get_heatmap_data (es1 @ x # es2) = get_heatmap_data (es1 @ es2)"
proof -
  have sk: "skipped_city (city_of x)" using assms(3) by (rule error_city_skipped)
  have ne: "str ''Error'' \<noteq> str ''Unknown''" by (simp add: str_def)
  have a: "calculate_governorate_scores (es1 @ x # es2) = calculate_governorate_scores (es1 @ es2)"
    by (simp add: calculate_governorate_scores_def score_step_skipped [OF sk])
  have b: "get_heatmap_data (es1 @ x # es2) = get_heatmap_data (es1 @ es2)"
    by (simp add: get_heatmap_data_def heat_step_skipped [OF sk])
  have c: "score_step (ev(str ''city'' \<mapsto> str ''Error'')) scores = scores"
    "heat_step (ev(str ''city'' \<mapsto> str ''Error'')) heatmap_data = heatmap_data"
    by (simp_all add: score_step_skipped heat_step_skipped error_city_skipped)
  show ?thesis
    unfolding assign_city_Some [OF assms(1,2)]
    using a b c ne by (simp add: score_step_skipped [OF sk] heat_step_skipped [OF sk])
qed



section \<open>The scores\<close>

text \<open>
  C1. The values of \<open>calculate_governorate_scores\<close> add up to the number of events whose
  city resolves to a governorate bucket, which are the events whose stripped city is one of
  the 24 names. An event that does not resolve can be removed from the input without changing
  the result, and an event whose city is missing, empty, \<open>Unknown\<close>, \<open>Error\<close> or
  \<open>Pending\<close> does not resolve.
\<close>

theorem calculate_governorate_scores_sum:
  "sum_list (map snd (calculate_governorate_scores evs)) = int (length (filter resolves_to_bucket evs))
   \<and> (resolves_to_bucket ev \<longleftrightarrow> city_of ev \<in> set TUNISIAN_GOVERNORATES)
   \<and> (\<not> resolves_to_bucket ev \<longrightarrow>
        calculate_governorate_scores (es1 @ ev # es2) = calculate_governorate_scores (es1 @ es2))
   \<and> (dict_get ev (str ''city'') [] \<in> set [[], str ''Unknown'', str ''Error'', str ''Pending'']
        \<longrightarrow> \<not> resolves_to_bucket ev)"
proof (intro conjI impI)
  show "sum_list (map snd (calculate_governorate_scores evs)) = int (length (filter resolves_to_bucket evs))"
    by (simp add: calculate_governorate_scores_def sum_fold_score_step keys_init comp_def)
  show "resolves_to_bucket ev \<longleftrightarrow> city_of ev \<in> set TUNISIAN_GOVERNORATES"
    by (rule resolves_iff)
next
  assume "\<not> resolves_to_bucket ev"
  then show "calculate_governorate_scores (es1 @ ev # es2) = calculate_governorate_scores (es1 @ es2)"
    by (simp add: calculate_governorate_scores_def score_step_unresolved keys_fold_score_step keys_init)
next
  assume "dict_get ev (str ''city'') [] \<in> set [[], str ''Unknown'', str ''Error'', str ''Pending'']"
  then show "\<not> resolves_to_bucket ev"
    by (simp only: resolves_to_bucket_def sentinel_unresolved not_True_eq_False simp_thms)
qed


theorem calculate_governorate_scores_sum_witness:
  "\<not> resolves_to_bucket [str ''city'' \<mapsto> str ''Unknown'']
   \<and> calculate_governorate_scores
        ([[str ''city'' \<mapsto> str ''Monastir'']] @ [str ''city'' \<mapsto> str ''Unknown'']
          # [[str ''city'' \<mapsto> str ''Sfax'']])
     = calculate_governorate_scores
        ([[str ''city'' \<mapsto> str ''Monastir'']] @ [[str ''city'' \<mapsto> str ''Sfax'']])
   \<and> sum_list (map snd (calculate_governorate_scores
        [[str ''city'' \<mapsto> str ''Monastir''], [str ''city'' \<mapsto> str ''Unknown''],
         [str ''city'' \<mapsto> str '' Sfax''], [str ''name'' \<mapsto> str ''Sfax''],
         [str ''city'' \<mapsto> str ''Paris'']])) = 2"
proof -
  have u: "dict_get [str ''city'' \<mapsto> str ''Unknown''] (str ''city'') []
          \<in> set [[], str ''Unknown'', str ''Error'', str ''Pending'']"
    by (simp add: dict_get_def)
  have n: "length (filter resolves_to_bucket
        [[str ''city'' \<mapsto> str ''Monastir''], [str ''city'' \<mapsto> str ''Unknown''],
         [str ''city'' \<mapsto> str '' Sfax''], [str ''name'' \<mapsto> str ''Sfax''],
         [str ''city'' \<mapsto> str ''Paris'']]) = 2"
    by (simp add: resolves_iff city_of_def strip_def isspace_def dict_get_def str_def
        TUNISIAN_GOVERNORATES_def)
  note t = calculate_governorate_scores_sum [of
        "[[str ''city'' \<mapsto> str ''Monastir''], [str ''city'' \<mapsto> str ''Unknown''],
          [str ''city'' \<mapsto> str '' Sfax''], [str ''name'' \<mapsto> str ''Sfax''],
          [str ''city'' \<mapsto> str ''Paris'']]"
        "[str ''city'' \<mapsto> str ''Unknown'']"
        "[[str ''city'' \<mapsto> str ''Monastir'']]" "[[str ''city'' \<mapsto> str ''Sfax'']]"]
  from t u have nr: "\<not> resolves_to_bucket [str ''city'' \<mapsto> str ''Unknown'']"
    by fast
  from t nr have eq: "calculate_governorate_scores
        ([[str ''city'' \<mapsto> str ''Monastir'']] @ [str ''city'' \<mapsto> str ''Unknown'']
          # [[str ''city'' \<mapsto> str ''Sfax'']])
     = calculate_governorate_scores
        ([[str ''city'' \<mapsto> str ''Monastir'']] @ [[str ''city'' \<mapsto> str ''Sfax'']])"
    by fast
  from t have "sum_list (map snd (calculate_governorate_scores
        [[str ''city'' \<mapsto> str ''Monastir''], [str ''city'' \<mapsto> str ''Unknown''],
         [str ''city'' \<mapsto> str '' Sfax''], [str ''name'' \<mapsto> str ''Sfax''],
         [str ''city'' \<mapsto> str ''Paris'']])) = int 2"
    unfolding n by (rule conjunct1)
  with nr eq show ?thesis by simp
qed

text \<open>
  C4. Whatever the input, the keys of the dict returned by \<open>calculate_governorate_scores\<close>
  and of the dict returned by \<open>get_heatmap_data\<close> are, in this order, the 24 distinct names
  of \<open>TUNISIAN_GOVERNORATES\<close>: no key is added and none is missing.
\<close>

theorem heatmap_keys_are_the_taxonomy:
  "keys (calculate_governorate_scores evs) = TUNISIAN_GOVERNORATES
   \<and> keys (get_heatmap_data evs) = TUNISIAN_GOVERNORATES
   \<and> length TUNISIAN_GOVERNORATES = 24
   \<and> distinct TUNISIAN_GOVERNORATES"
  by (simp add: keys_scores keys_heatmap length_governorates distinct_governorates)

text \<open>
  C10. The keys of \<open>CITY_TO_GOVERNORATE\<close> are the 24 governorate names and every key maps
  to itself. So \<open>calculate_governorate_scores\<close> is the simplified function that only tests
  whether \<open>CITY_TO_GOVERNORATE.get(city, city)\<close> is a bucket, one iteration at a time and on
  every input, and the condition of the branch \<open>elif city in scores\<close> never holds when the
  branch is reached, whatever the keys \<open>ks\<close> of \<open>scores\<close> are.
\<close>

theorem city_table_is_identity:
  "set (keys CITY_TO_GOVERNORATE) = set TUNISIAN_GOVERNORATES
   \<and> map snd CITY_TO_GOVERNORATE = keys CITY_TO_GOVERNORATE
   \<and> distinct (keys CITY_TO_GOVERNORATE)
   \<and> calculate_governorate_scores evs = calculate_governorate_scores_simplified evs
   \<and> score_step ev scores = score_step_simplified ev scores
   \<and> \<not> (dict_get (map_of CITY_TO_GOVERNORATE) c c \<notin> set ks \<and> c \<in> set ks)"
proof (intro conjI)
  show "distinct (keys CITY_TO_GOVERNORATE)"
    by (simp add: keys_def CITY_TO_GOVERNORATE_def str_def)
  have "score_step_simplified = score_step"
    by (intro ext) (rule score_step_simplified_eq)
  then show "calculate_governorate_scores evs = calculate_governorate_scores_simplified evs"
    by (simp add: calculate_governorate_scores_def calculate_governorate_scores_simplified_def)
  show "score_step ev scores = score_step_simplified ev scores"
    by (simp add: score_step_simplified_eq)
  show "\<not> (dict_get (map_of CITY_TO_GOVERNORATE) c c \<notin> set ks \<and> c \<in> set ks)"
    by (simp add: normalise_id)
qed (rule table_keys table_values)+

section \<open>The heatmap and its summary\<close>

text \<open>
  C5. For every governorate \<open>g\<close>, \<open>get_heatmap_data\<close> has a bucket whose score is the
  number of events matching \<open>g\<close>, whose \<open>events_count\<close> is that score, whose colour is
  \<open>get_color_for_score\<close> of the score, and whose sample is the first five matching events
  in input order, so it holds min(score, 5) events and never more than five.
\<close>

theorem get_heatmap_data_buckets:
  assumes "g \<in> set TUNISIAN_GOVERNORATES"
  shows "\<exists>b. map_of (get_heatmap_data evs) g = Some b
       \<and> score b = int (length (matching_events g evs))
       \<and> events_count b = score b
       \<and> color b = get_color_for_score (score b)
       \<and> events b = take 5 (matching_events g evs)
       \<and> int (length (events b)) = min (score b) 5"
proof -
  have "map_of (map (\<lambda>gov. (gov, empty_bucket)) TUNISIAN_GOVERNORATES) g = Some (bucket_for [])"
    using assms by (simp add: map_of_init empty_bucket_for)
  from map_of_fold_heat_step [OF this]
  have "map_of (get_heatmap_data evs) g = Some (bucket_for (matching_events g evs))"
    by (simp add: get_heatmap_data_def)
  then show ?thesis by (simp add: bucket_for_def min_def)
qed


theorem get_heatmap_data_buckets_witness:
  "str ''Sfax'' \<in> set TUNISIAN_GOVERNORATES
   \<and> (\<exists>b. map_of (get_heatmap_data
          [[str ''city'' \<mapsto> str ''Sfax'', str ''name'' \<mapsto> str ''a''],
           [str ''city'' \<mapsto> str ''Tunis'', str ''name'' \<mapsto> str ''b''],
           [str ''city'' \<mapsto> str ''Sfax'', str ''name'' \<mapsto> str ''c''],
           [str ''city'' \<mapsto> str ''Sfax'', str ''name'' \<mapsto> str ''d''],
           [str ''city'' \<mapsto> str ''Sfax'', str ''name'' \<mapsto> str ''e''],
           [str ''city'' \<mapsto> str ''Sfax'', str ''name'' \<mapsto> str ''f''],
           [str ''city'' \<mapsto> str ''Sfax'', str ''name'' \<mapsto> str ''g'']]) (str ''Sfax'') = Some b
        \<and> score b = 6 \<and> events_count b = 6 \<and> color b = str ''#FF8800''
        \<and> events b =
          [[str ''city'' \<mapsto> str ''Sfax'', str ''name'' \<mapsto> str ''a''],
           [str ''city'' \<mapsto> str ''Sfax'', str ''name'' \<mapsto> str ''c''],
           [str ''city'' \<mapsto> str ''Sfax'', str ''name'' \<mapsto> str ''d''],
           [str ''city'' \<mapsto> str ''Sfax'', str ''name'' \<mapsto> str ''e''],
           [str ''city'' \<mapsto> str ''Sfax'', str ''name'' \<mapsto> str ''f'']])"
proof -
  have g: "str ''Sfax'' \<in> set TUNISIAN_GOVERNORATES"
    by (simp add: TUNISIAN_GOVERNORATES_def)
  have m: "matching_events (str ''Sfax'')
          [[str ''city'' \<mapsto> str ''Sfax'', str ''name'' \<mapsto> str ''a''],
           [str ''city'' \<mapsto> str ''Tunis'', str ''name'' \<mapsto> str ''b''],
           [str ''city'' \<mapsto> str ''Sfax'', str ''name'' \<mapsto> str ''c''],
           [str ''city'' \<mapsto> str ''Sfax'', str ''name'' \<mapsto> str ''d''],
           [str ''city'' \<mapsto> str ''Sfax'', str ''name'' \<mapsto> str ''e''],
           [str ''city'' \<mapsto> str ''Sfax'', str ''name'' \<mapsto> str ''f''],
           [str ''city'' \<mapsto> str ''Sfax'', str ''name'' \<mapsto> str ''g'']]
       = [[str ''city'' \<mapsto> str ''Sfax'', str ''name'' \<mapsto> str ''a''],
           [str ''city'' \<mapsto> str ''Sfax'', str ''name'' \<mapsto> str ''c''],
           [str ''city'' \<mapsto> str ''Sfax'', str ''name'' \<mapsto> str ''d''],
           [str ''city'' \<mapsto> str ''Sfax'', str ''name'' \<mapsto> str ''e''],
           [str ''city'' \<mapsto> str ''Sfax'', str ''name'' \<mapsto> str ''f''],
           [str ''city'' \<mapsto> str ''Sfax'', str ''name'' \<mapsto> str ''g'']]"
    by (simp add: matching_events_Cons city_of_def strip_def isspace_def
        dict_get_def skipped_city_def str_def)
  from get_heatmap_data_buckets [OF g, of
          "[[str ''city'' \<mapsto> str ''Sfax'', str ''name'' \<mapsto> str ''a''],
           [str ''city'' \<mapsto> str ''Tunis'', str ''name'' \<mapsto> str ''b''],
           [str ''city'' \<mapsto> str ''Sfax'', str ''name'' \<mapsto> str ''c''],
           [str ''city'' \<mapsto> str ''Sfax'', str ''name'' \<mapsto> str ''d''],
           [str ''city'' \<mapsto> str ''Sfax'', str ''name'' \<mapsto> str ''e''],
           [str ''city'' \<mapsto> str ''Sfax'', str ''name'' \<mapsto> str ''f''],
           [str ''city'' \<mapsto> str ''Sfax'', str ''name'' \<mapsto> str ''g'']]"]
  show ?thesis
    unfolding m using g by (auto simp: get_color_for_score_def)
qed

text \<open>
  C7. \<open>get_heatmap_summary\<close> returns the sum of the scores as \<open>total_events\<close>, the number
  of buckets with a nonzero score as \<open>active_governorates\<close>, 24 as \<open>total_governorates\<close>
  whatever the input, and as \<open>governorates_with_events\<close> the governorates with a nonzero score
  in the order of \<open>TUNISIAN_GOVERNORATES\<close>.
\<close>

theorem get_heatmap_summary_fields:
  "total_events (get_heatmap_summary evs) = sum_list (map snd (calculate_governorate_scores evs))
   \<and> active_governorates (get_heatmap_summary evs) =
       int (length (filter (\<lambda>(g, v). v \<noteq> 0) (calculate_governorate_scores evs)))
   \<and> total_governorates (get_heatmap_summary evs) = 24
   \<and> governorates_with_events (get_heatmap_summary evs) =
       filter (\<lambda>g. dict_get (map_of (calculate_governorate_scores evs)) g 0 \<noteq> 0)
         TUNISIAN_GOVERNORATES"
proof -
  have "distinct (keys (calculate_governorate_scores evs))"
    by (simp add: keys_scores distinct_governorates)
  from names_positive [OF this nonneg_scores] count_positive [OF nonneg_scores, of evs]
  show ?thesis
    by (simp add: get_heatmap_summary_def Let_def keys_scores length_governorates)
qed


section \<open>The crawl\<close>

text \<open>
  C9. A crawl run returns a list of events whose \<open>url\<close> values are pairwise distinct. They
  are the URLs the items of the listing resolve to, each kept at its first occurrence and in
  listing order; the record of a URL is the one built from the first container with that URL,
  later containers with the same URL are dropped, and the second loop changes only the city.
  An item whose \<open>href\<close> starts with \<open>http\<close> gets that \<open>href\<close> as URL, any other gets
  \<open>https://teskerti.tn\<close> followed by its \<open>href\<close>. So a relative \<open>href\<close> and the absolute
  form of the same URL, in either order, give exactly one record, the one of the first of the
  two, with the absolute URL.
\<close>

theorem scrape_events_distinct_urls:
  "(\<exists>evs. scrape_events rt web cs = Some evs
     \<and> map (\<lambda>ev. ev (str ''url'')) evs =
         map Some (first_occurrences (List.map_filter resolved_url cs))
     \<and> distinct (map (\<lambda>ev. ev (str ''url'')) evs)
     \<and> list_all2 (\<lambda>ev0 ev. \<exists>cty. ev = ev0(str ''city'' \<mapsto> cty)) (crawl cs [] {}) evs
     \<and> map Some (crawl cs [] {}) =
         map (listed_event cs) (first_occurrences (List.map_filter resolved_url cs))
     \<and> length (crawl [c\<lparr>link_href := Some (Some (str ''/event/1''))\<rparr>,
                       c'\<lparr>link_href := Some (Some (str ''https://teskerti.tn/event/1''))\<rparr>] [] {}) = 1)
   \<and> (link_href a = Some (Some h) \<and> h \<noteq> [] \<longrightarrow>
        crawl [a] [] {} =
          [new_event a (if take 4 h = str ''http'' then h else str ''https://teskerti.tn'' @ h)])
   \<and> (p \<noteq> [] \<and> take 4 p \<noteq> str ''http'' \<and> link_href a = Some (Some p)
        \<and> link_href b = Some (Some (str ''https://teskerti.tn'' @ p)) \<longrightarrow>
        crawl [a, b] [] {} = [new_event a (str ''https://teskerti.tn'' @ p)]
        \<and> crawl [b, a] [] {} = [new_event b (str ''https://teskerti.tn'' @ p)]
        \<and> (\<exists>ev. scrape_events rt web [a, b] = Some [ev]
              \<and> ev (str ''url'') = Some (str ''https://teskerti.tn'' @ p)))
   \<and> map (\<lambda>ev. ev (str ''url''))
        (crawl [c\<lparr>link_href := Some (Some (str ''/event/1''))\<rparr>,
                c\<lparr>link_href := Some (Some (str ''https://teskerti.tn/event/1''))\<rparr>,
                c\<lparr>link_href := Some (Some (str ''/event/2''))\<rparr>] [] {})
      = [Some (str ''https://teskerti.tn/event/1''), Some (str ''https://teskerti.tn/event/2'')]"
proof (intro conjI impI)
  from assign_cities_total [of "crawl cs [] {}" rt web] crawl_has_keys [of _ cs "{}"]
  obtain evs where evs: "assign_cities rt web (crawl cs [] {}) = Some evs"
    "list_all2 (\<lambda>ev ev'. \<exists>cty. ev' = ev(str ''city'' \<mapsto> cty)) (crawl cs [] {}) evs"
    by blast
  have urls: "map (\<lambda>ev. ev (str ''url'')) evs =
         map Some (first_occurrences (List.map_filter resolved_url cs))"
    using city_update_keeps_urls [OF evs(2)] crawl_urls [of cs "{}"] by simp
  have "distinct (map (\<lambda>ev. ev (str ''url'')) evs)"
    unfolding urls by (simp add: distinct_map distinct_first_occurrences)
  moreover have "length (crawl [c\<lparr>link_href := Some (Some (str ''/event/1''))\<rparr>,
                       c'\<lparr>link_href := Some (Some (str ''https://teskerti.tn/event/1''))\<rparr>] [] {}) = 1"
    by (simp add: absolute_href_def str_def Let_def)
  moreover have "map Some (crawl cs [] {}) =
         map (listed_event cs) (first_occurrences (List.map_filter resolved_url cs))"
    using crawl_listed [of cs "{}"] by simp
  ultimately show "\<exists>evs. scrape_events rt web cs = Some evs
     \<and> map (\<lambda>ev. ev (str ''url'')) evs =
         map Some (first_occurrences (List.map_filter resolved_url cs))
     \<and> distinct (map (\<lambda>ev. ev (str ''url'')) evs)
     \<and> list_all2 (\<lambda>ev0 ev. \<exists>cty. ev = ev0(str ''city'' \<mapsto> cty)) (crawl cs [] {}) evs
     \<and> map Some (crawl cs [] {}) =
         map (listed_event cs) (first_occurrences (List.map_filter resolved_url cs))
     \<and> length (crawl [c\<lparr>link_href := Some (Some (str ''/event/1''))\<rparr>,
                       c'\<lparr>link_href := Some (Some (str ''https://teskerti.tn/event/1''))\<rparr>] [] {}) = 1"
    using evs urls by (simp add: scrape_events_def)
next
  assume h: "link_href a = Some (Some h) \<and> h \<noteq> []"
  show "crawl [a] [] {} =
          [new_event a (if take 4 h = str ''http'' then h else str ''https://teskerti.tn'' @ h)]"
    by (rule crawl_single [OF conjunct1 [OF h] conjunct2 [OF h]])
next
  assume a: "p \<noteq> [] \<and> take 4 p \<noteq> str ''http'' \<and> link_href a = Some (Some p)
        \<and> link_href b = Some (Some (str ''https://teskerti.tn'' @ p))"
  then show ab: "crawl [a, b] [] {} = [new_event a (str ''https://teskerti.tn'' @ p)]"
    by (intro crawl_relative_absolute_pair) simp_all
  from a show "crawl [b, a] [] {} = [new_event b (str ''https://teskerti.tn'' @ p)]"
    by (intro crawl_relative_absolute_pair) simp_all
  from scrape_single [OF ab, of rt web]
  show "\<exists>ev. scrape_events rt web [a, b] = Some [ev]
              \<and> ev (str ''url'') = Some (str ''https://teskerti.tn'' @ p)"
    by simp
next
  show "map (\<lambda>ev. ev (str ''url''))
        (crawl [c\<lparr>link_href := Some (Some (str ''/event/1''))\<rparr>,
                c\<lparr>link_href := Some (Some (str ''https://teskerti.tn/event/1''))\<rparr>,
                c\<lparr>link_href := Some (Some (str ''/event/2''))\<rparr>] [] {})
      = [Some (str ''https://teskerti.tn/event/1''), Some (str ''https://teskerti.tn/event/2'')]"
    by (rule crawl_three_items)
qed

theorem scrape_events_distinct_urls_witness:
  "link_href (bare_container\<lparr>link_href := Some (Some (str ''/event/1''))\<rparr>)
      = Some (Some (str ''/event/1''))
   \<and> str ''/event/1'' \<noteq> []
   \<and> take 4 (str ''/event/1'') \<noteq> str ''http''
   \<and> link_href (bare_container\<lparr>link_href := Some (Some (str ''https://teskerti.tn/event/1''))\<rparr>)
      = Some (Some (str ''https://teskerti.tn'' @ str ''/event/1''))
   \<and> crawl [bare_container\<lparr>link_href := Some (Some (str ''/event/1''))\<rparr>] [] {}
      = [new_event (bare_container\<lparr>link_href := Some (Some (str ''/event/1''))\<rparr>)
           (str ''https://teskerti.tn/event/1'')]
   \<and> crawl [bare_container\<lparr>link_href := Some (Some (str ''/event/1''))\<rparr>,
             bare_container\<lparr>link_href := Some (Some (str ''https://teskerti.tn/event/1''))\<rparr>] [] {}
      = [new_event (bare_container\<lparr>link_href := Some (Some (str ''/event/1''))\<rparr>)
           (str ''https://teskerti.tn/event/1'')]"
proof -
  let ?a = "bare_container\<lparr>link_href := Some (Some (str ''/event/1''))\<rparr>"
  let ?b = "bare_container\<lparr>link_href := Some (Some (str ''https://teskerti.tn/event/1''))\<rparr>"
  have h1: "link_href ?a = Some (Some (str ''/event/1''))" by simp
  have h2: "str ''/event/1'' \<noteq> []" by (simp add: str_def)
  have h3: "take 4 (str ''/event/1'') \<noteq> str ''http''" by (simp add: str_def)
  have h4: "link_href ?b = Some (Some (str ''https://teskerti.tn'' @ str ''/event/1''))"
    by (simp add: str_def)
  have e: "str ''https://teskerti.tn'' @ str ''/event/1'' = str ''https://teskerti.tn/event/1''"
    by (simp add: str_def)
  note t = scrape_events_distinct_urls [where a = ?a and b = ?b and h = "str ''/event/1''"
      and p = "str ''/event/1''"]
  have s: "crawl [?a] [] {} =
      [new_event ?a (if take 4 (str ''/event/1'') = str ''http'' then str ''/event/1''
                     else str ''https://teskerti.tn'' @ str ''/event/1'')]"
    by (rule mp [OF t [THEN conjunct2, THEN conjunct1] conjI [OF h1 h2]])
  have d: "crawl [?a, ?b] [] {} =
      [new_event ?a (str ''https://teskerti.tn'' @ str ''/event/1'')]"
    by (rule conjunct1 [OF mp [OF t [THEN conjunct2, THEN conjunct2, THEN conjunct1]
          conjI [OF h2 conjI [OF h3 conjI [OF h1 h4]]]]])
  from s d h1 h2 h3 h4 show ?thesis
    unfolding e by (simp only: h3 if_False e simp_thms)
qed


section \<open>The resolver\<close>

text \<open>
  C2, as stated, fails: the navigation to the event page comes before the title tier, and a
  failed navigation gives \<open>Error\<close> although the title holds the alias \<open>monastir\<close> as a whole
  word.
\<close>

theorem title_alias_gives_error_when_navigation_fails:
  "re_search_word (re_word latin1) (str ''monastir'') (str_lower latin1 soiree_title)
   \<and> extract_city_from_event_page latin1 unreachable_site (str ''https://teskerti.tn/event/1'')
        (Some soiree_title) = str ''Error''"
  by (simp add: extract_city_from_event_page_def unreachable_site_def re_search_word_def
      boundary_def word_at_def occurs_at_def latin1_def latin1_lower_def latin1_word_def
      soiree_title_def str_def)

text \<open>
  C2, amended. When the navigation to the event page succeeds and the title holds a key of
  the alias table as a whole word, the resolver returns the city of the first such key in
  table order, which is the city of that key when all matching keys name the same city; the
  result is neither \<open>Error\<close> nor \<open>Unknown\<close> and does not depend on the blocks of the page.
  When the navigation fails the result is \<open>Error\<close>, whatever the title.
\<close>

theorem title_match_wins_once_the_page_loads:
  assumes "goto_ok (web event_url)" and "n \<noteq> []"
    and "(key, cty) \<in> set CITY_ALIASES"
    and "re_search_word (re_word rt) key (str_lower rt n)"
  shows "(\<exists>key'. find (\<lambda>(k, c). re_search_word (re_word rt) k (str_lower rt n)) CITY_ALIASES
              = Some (key', extract_city_from_event_page rt web event_url (Some n)))
       \<and> extract_city_from_event_page rt web event_url (Some n) \<noteq> str ''Error''
       \<and> extract_city_from_event_page rt web event_url (Some n) \<noteq> str ''Unknown''
       \<and> ((\<forall>(k, c) \<in> set CITY_ALIASES.
              re_search_word (re_word rt) k (str_lower rt n) \<longrightarrow> c = cty)
           \<longrightarrow> extract_city_from_event_page rt web event_url (Some n) = cty)
       \<and> extract_city_from_event_page rt
            (web(event_url := (web event_url)\<lparr>query_all := q\<rparr>)) event_url (Some n)
          = extract_city_from_event_page rt web event_url (Some n)
       \<and> extract_city_from_event_page rt
            (web(event_url := (web event_url)\<lparr>goto_ok := False\<rparr>)) event_url (Some n)
          = str ''Error''"
proof -
  let ?P = "\<lambda>(k, c). re_search_word (re_word rt) k (str_lower rt n)"
  from assms(3,4) have "find ?P CITY_ALIASES \<noteq> None"
    by (auto simp: find_None_iff)
  then obtain k c where f: "find ?P CITY_ALIASES = Some (k, c)"
    by (cases "find ?P CITY_ALIASES") auto
  then have m: "(k, c) \<in> set CITY_ALIASES" "re_search_word (re_word rt) k (str_lower rt n)"
    by (auto simp: find_Some_iff dest: nth_mem)
  have t: "title_tier rt (Some n) = Some c"
    using f assms(2) by (simp add: title_tier_find)
  have e: "extract_city_from_event_page rt web event_url (Some n) = c"
    using assms(1) t by (rule extract_title)
  have e': "extract_city_from_event_page rt
            (web(event_url := (web event_url)\<lparr>query_all := q\<rparr>)) event_url (Some n) = c"
    using assms(1) t by (intro extract_title) simp_all
  have d: "extract_city_from_event_page rt
            (web(event_url := (web event_url)\<lparr>goto_ok := False\<rparr>)) event_url (Some n)
          = str ''Error''"
    by (intro extract_down) simp
  have "c \<noteq> str ''Error'' \<and> c \<noteq> str ''Unknown''"
    using alias_cities_are_cities m(1) unfolding list_all_iff by fast
  moreover have "(\<forall>(k, c) \<in> set CITY_ALIASES.
              re_search_word (re_word rt) k (str_lower rt n) \<longrightarrow> c = cty) \<longrightarrow> c = cty"
    using m by fast
  ultimately show ?thesis
    unfolding e e' d using f by simp
qed


theorem title_match_wins_once_the_page_loads_witness:
  "goto_ok (sfax_site (str ''https://teskerti.tn/event/1''))
   \<and> soiree_title \<noteq> []
   \<and> (str ''monastir'', str ''Monastir'') \<in> set CITY_ALIASES
   \<and> re_search_word (re_word latin1) (str ''monastir'') (str_lower latin1 soiree_title)
   \<and> extract_city_from_event_page latin1 sfax_site (str ''https://teskerti.tn/event/1'')
        (Some soiree_title) = str ''Monastir''"
proof -
  have h1: "goto_ok (sfax_site (str ''https://teskerti.tn/event/1''))"
    by (simp add: sfax_site_def)
  have h2: "soiree_title \<noteq> []"
    by (simp add: soiree_title_def)
  have h3: "(str ''monastir'', str ''Monastir'') \<in> set CITY_ALIASES"
    by (simp add: CITY_ALIASES_def)
  have h4: "re_search_word (re_word latin1) (str ''monastir'') (str_lower latin1 soiree_title)"
    by (simp add: re_search_word_def boundary_def word_at_def occurs_at_def latin1_def
        latin1_lower_def latin1_word_def soiree_title_def str_def)
  have h5: "\<forall>(k, c) \<in> set CITY_ALIASES.
      re_search_word (re_word latin1) k (str_lower latin1 soiree_title) \<longrightarrow> c = str ''Monastir''"
    by (simp add: CITY_ALIASES_def re_search_word_def boundary_def word_at_def occurs_at_def
        latin1_def latin1_lower_def latin1_word_def soiree_title_def str_def)
  from title_match_wins_once_the_page_loads
    [where web = sfax_site and event_url = "str ''https://teskerti.tn/event/1''"
      and n = soiree_title and key = "str ''monastir''" and cty = "str ''Monastir''"
      and rt = latin1, OF h1 h2 h3 h4] h5
  have "extract_city_from_event_page latin1 sfax_site (str ''https://teskerti.tn/event/1'')
        (Some soiree_title) = str ''Monastir''"
    by fast
  with h1 h2 h3 h4 show ?thesis by (simp only: simp_thms)
qed

section \<open>The second loop\<close>

text \<open>
  C8. The second loop of \<open>scrape_events\<close> gives every event of the crawl, in order, the
  city the resolver returns for its URL and name, with \<open>Tunis\<close> in place of \<open>Unknown\<close> and
  every other result as it is, \<open>Error\<close> included, and changes no other field. So after the
  loop no event has the city \<open>Unknown\<close> or \<open>Pending\<close>: the city is \<open>Error\<close> or one of
  \<open>TUNISIAN_CITIES\<close>. An event whose city is \<open>Error\<close>, such as the one the loop stores
  after a failed resolution, changes neither the scores nor the heatmap.
\<close>

theorem unknown_becomes_tunis_error_is_kept:
  assumes "ev (str ''url'') = Some u" and "ev (str ''name'') = Some n"
    and "x (str ''city'') = Some (str ''Error'')"
  shows "(\<exists>ev'. assign_city rt web ev = Some ev'
      \<and> (extract_city_from_event_page rt web u (Some n) = str ''Unknown''
           \<longrightarrow> ev' (str ''city'') = Some (str ''Tunis''))
      \<and> (extract_city_from_event_page rt web u (Some n) = str ''Error''
           \<longrightarrow> ev' (str ''city'') = Some (str ''Error'')
               \<and> score_step ev' scores = scores \<and> heat_step ev' heatmap_data = heatmap_data)
      \<and> (extract_city_from_event_page rt web u (Some n) \<noteq> str ''Unknown''
           \<longrightarrow> ev' (str ''city'') = Some (extract_city_from_event_page rt web u (Some n)))
      \<and> (\<forall>k. k \<noteq> str ''city'' \<longrightarrow> ev' k = ev k)
      \<and> score_step x scores = scores \<and> heat_step x heatmap_data = heatmap_data
      \<and> calculate_governorate_scores (es1 @ x # es2) = calculate_governorate_scores (es1 @ es2)
      \<and> get_heatmap_data (es1 @ x # es2) = get_heatmap_data (es1 @ es2))
   \<and> ((\<forall>e \<in> set evs0. e (str ''url'') \<noteq> None \<and> e (str ''name'') \<noteq> None) \<longrightarrow>
        (\<exists>evs. assign_cities rt web evs0 = Some evs
           \<and> list_all2 (\<lambda>ev0 ev'. \<exists>u n. ev0 (str ''url'') = Some u \<and> ev0 (str ''name'') = Some n
            \<and> ev' = ev0(str ''city'' \<mapsto>
                 (if extract_city_from_event_page rt web u (Some n) = str ''Unknown''
                  then str ''Tunis'' else extract_city_from_event_page rt web u (Some n)))) evs0 evs))
   \<and> (\<exists>evs. scrape_events rt web cs = Some evs
           \<and> list_all2 (\<lambda>ev0 ev'. \<exists>u n. ev0 (str ''url'') = Some u \<and> ev0 (str ''name'') = Some n
            \<and> ev' = ev0(str ''city'' \<mapsto>
                 (if extract_city_from_event_page rt web u (Some n) = str ''Unknown''
                  then str ''Tunis'' else extract_city_from_event_page rt web u (Some n)))) (crawl cs [] {}) evs
           \<and> (\<forall>e \<in> set evs. \<exists>cty. e (str ''city'') = Some cty
                  \<and> cty \<noteq> str ''Unknown'' \<and> cty \<noteq> str ''Pending''
                  \<and> (cty = str ''Error'' \<or> cty \<in> set TUNISIAN_CITIES)
                  \<and> (cty = str ''Error'' \<longrightarrow>
                        score_step e scores = scores \<and> heat_step e heatmap_data = heatmap_data)))"
proof (intro conjI impI)
  show "\<exists>ev'. assign_city rt web ev = Some ev'
      \<and> (extract_city_from_event_page rt web u (Some n) = str ''Unknown''
           \<longrightarrow> ev' (str ''city'') = Some (str ''Tunis''))
      \<and> (extract_city_from_event_page rt web u (Some n) = str ''Error''
           \<longrightarrow> ev' (str ''city'') = Some (str ''Error'')
               \<and> score_step ev' scores = scores \<and> heat_step ev' heatmap_data = heatmap_data)
      \<and> (extract_city_from_event_page rt web u (Some n) \<noteq> str ''Unknown''
           \<longrightarrow> ev' (str ''city'') = Some (extract_city_from_event_page rt web u (Some n)))
      \<and> (\<forall>k. k \<noteq> str ''city'' \<longrightarrow> ev' k = ev k)
      \<and> score_step x scores = scores \<and> heat_step x heatmap_data = heatmap_data
      \<and> calculate_governorate_scores (es1 @ x # es2) = calculate_governorate_scores (es1 @ es2)
      \<and> get_heatmap_data (es1 @ x # es2) = get_heatmap_data (es1 @ es2)"
    using assms by (rule assign_city_stores)
next
  assume "\<forall>e \<in> set evs0. e (str ''url'') \<noteq> None \<and> e (str ''name'') \<noteq> None"
  then show "\<exists>evs. assign_cities rt web evs0 = Some evs
           \<and> list_all2 (\<lambda>ev0 ev'. \<exists>u n. ev0 (str ''url'') = Some u \<and> ev0 (str ''name'') = Some n
            \<and> ev' = ev0(str ''city'' \<mapsto>
                 (if extract_city_from_event_page rt web u (Some n) = str ''Unknown''
                  then str ''Tunis'' else extract_city_from_event_page rt web u (Some n)))) evs0 evs"
    by (intro assign_cities_exact) blast
next
  from assign_cities_exact [of "crawl cs [] {}" rt web] crawl_has_keys [of _ cs "{}"]
  obtain evs where evs: "assign_cities rt web (crawl cs [] {}) = Some evs"
    "list_all2 (\<lambda>ev0 ev'. \<exists>u n. ev0 (str ''url'') = Some u \<and> ev0 (str ''name'') = Some n
            \<and> ev' = ev0(str ''city'' \<mapsto>
                 (if extract_city_from_event_page rt web u (Some n) = str ''Unknown''
                  then str ''Tunis'' else extract_city_from_event_page rt web u (Some n)))) (crawl cs [] {}) evs"
    by blast
  have "\<exists>cty. e (str ''city'') = Some cty
                  \<and> cty \<noteq> str ''Unknown'' \<and> cty \<noteq> str ''Pending''
                  \<and> (cty = str ''Error'' \<or> cty \<in> set TUNISIAN_CITIES)
                  \<and> (cty = str ''Error'' \<longrightarrow>
                        score_step e scores = scores \<and> heat_step e heatmap_data = heatmap_data)"
    if "e \<in> set evs" for e
  proof -
    from list_all2_setD [OF evs(2) that] obtain e0 where "(\<lambda>ev0 ev'. \<exists>u n. ev0 (str ''url'') = Some u \<and> ev0 (str ''name'') = Some n
            \<and> ev' = ev0(str ''city'' \<mapsto>
                 (if extract_city_from_event_page rt web u (Some n) = str ''Unknown''
                  then str ''Tunis'' else extract_city_from_event_page rt web u (Some n)))) e0 e"
      by blast
    from stored_city_range [OF this] obtain cty where c: "e (str ''city'') = Some cty"
      "cty \<noteq> str ''Unknown''" "cty \<noteq> str ''Pending''"
      "cty = str ''Error'' \<or> cty \<in> set TUNISIAN_CITIES"
      by blast
    have "score_step e scores = scores \<and> heat_step e heatmap_data = heatmap_data"
      if "cty = str ''Error''"
      using that c(1) by (simp add: score_step_skipped heat_step_skipped error_city_skipped)
    with c show ?thesis by blast
  qed
  with evs show "\<exists>evs. scrape_events rt web cs = Some evs
           \<and> list_all2 (\<lambda>ev0 ev'. \<exists>u n. ev0 (str ''url'') = Some u \<and> ev0 (str ''name'') = Some n
            \<and> ev' = ev0(str ''city'' \<mapsto>
                 (if extract_city_from_event_page rt web u (Some n) = str ''Unknown''
                  then str ''Tunis'' else extract_city_from_event_page rt web u (Some n)))) (crawl cs [] {}) evs
           \<and> (\<forall>e \<in> set evs. \<exists>cty. e (str ''city'') = Some cty
                  \<and> cty \<noteq> str ''Unknown'' \<and> cty \<noteq> str ''Pending''
                  \<and> (cty = str ''Error'' \<or> cty \<in> set TUNISIAN_CITIES)
                  \<and> (cty = str ''Error'' \<longrightarrow>
                        score_step e scores = scores \<and> heat_step e heatmap_data = heatmap_data))"
    unfolding scrape_events_def by blast
qed

theorem unknown_becomes_tunis_error_is_kept_witness:
  "[str ''url'' \<mapsto> str ''u'', str ''name'' \<mapsto> str ''Gala''] (str ''url'') = Some (str ''u'')
   \<and> [str ''url'' \<mapsto> str ''u'', str ''name'' \<mapsto> str ''Gala''] (str ''name'') = Some (str ''Gala'')
   \<and> [str ''city'' \<mapsto> str ''Error''] (str ''city'') = Some (str ''Error'')
   \<and> (\<exists>ev'. assign_city latin1 blank_site
              [str ''url'' \<mapsto> str ''u'', str ''name'' \<mapsto> str ''Gala''] = Some ev'
            \<and> ev' (str ''city'') = Some (str ''Tunis''))
   \<and> (\<exists>ev'. assign_city latin1 unreachable_site
              [str ''url'' \<mapsto> str ''u'', str ''name'' \<mapsto> str ''Gala''] = Some ev'
            \<and> ev' (str ''city'') = Some (str ''Error''))
   \<and> calculate_governorate_scores ([] @ [str ''city'' \<mapsto> str ''Error''] # [])
       = calculate_governorate_scores ([] @ [])
   \<and> (\<exists>evs. scrape_events latin1 unreachable_site
        [bare_container\<lparr>link_href := Some (Some (str ''/event/1'')),
                         title_h3 := Some (str ''Gala'')\<rparr>] = Some evs
      \<and> map (\<lambda>e. e (str ''city'')) evs = [Some (str ''Error'')])
   \<and> (\<exists>evs. scrape_events latin1 blank_site
        [bare_container\<lparr>link_href := Some (Some (str ''/event/1'')),
                         title_h3 := Some (str ''Gala'')\<rparr>] = Some evs
      \<and> map (\<lambda>e. e (str ''city'')) evs = [Some (str ''Tunis'')])"
proof -
  have h1: "[str ''url'' \<mapsto> str ''u'', str ''name'' \<mapsto> str ''Gala''] (str ''url'') = Some (str ''u'')"
    by (simp add: str_def)
  have h2: "[str ''url'' \<mapsto> str ''u'', str ''name'' \<mapsto> str ''Gala''] (str ''name'') = Some (str ''Gala'')"
    by simp
  have h3: "[str ''city'' \<mapsto> str ''Error''] (str ''city'') = Some (str ''Error'')"
    by simp
  have u: "extract_city_from_event_page latin1 blank_site (str ''u'') (Some (str ''Gala''))
      = str ''Unknown''"
    by (simp add: extract_city_from_event_page_def title_tier_def CITY_ALIASES_def
        re_search_word_def occurs_at_def latin1_def latin1_lower_def str_def
        address_selectors_def venue_tier_def blank_site_def)
  have e: "extract_city_from_event_page latin1 unreachable_site (str ''u'') (Some (str ''Gala''))
      = str ''Error''"
    by (simp add: extract_city_from_event_page_def unreachable_site_def)
  from unknown_becomes_tunis_error_is_kept
    [where ev = "[str ''url'' \<mapsto> str ''u'', str ''name'' \<mapsto> str ''Gala'']"
      and u = "str ''u''" and n = "str ''Gala''" and x = "[str ''city'' \<mapsto> str ''Error'']"
      and rt = latin1 and web = blank_site and ?es1.0 = "[]" and ?es2.0 = "[]", OF h1 h2 h3, THEN conjunct1] u
  have a: "\<exists>ev'. assign_city latin1 blank_site
              [str ''url'' \<mapsto> str ''u'', str ''name'' \<mapsto> str ''Gala''] = Some ev'
            \<and> ev' (str ''city'') = Some (str ''Tunis'')"
    by fast
  from unknown_becomes_tunis_error_is_kept
    [where ev = "[str ''url'' \<mapsto> str ''u'', str ''name'' \<mapsto> str ''Gala'']"
      and u = "str ''u''" and n = "str ''Gala''" and x = "[str ''city'' \<mapsto> str ''Error'']"
      and rt = latin1 and web = unreachable_site and ?es1.0 = "[]" and ?es2.0 = "[]", OF h1 h2 h3, THEN conjunct1] e
  have b: "\<exists>ev'. assign_city latin1 unreachable_site
              [str ''url'' \<mapsto> str ''u'', str ''name'' \<mapsto> str ''Gala''] = Some ev'
            \<and> ev' (str ''city'') = Some (str ''Error'')"
    by fast
  from unknown_becomes_tunis_error_is_kept
    [where ev = "[str ''url'' \<mapsto> str ''u'', str ''name'' \<mapsto> str ''Gala'']"
      and u = "str ''u''" and n = "str ''Gala''" and x = "[str ''city'' \<mapsto> str ''Error'']"
      and rt = latin1 and web = blank_site and ?es1.0 = "[]" and ?es2.0 = "[]", OF h1 h2 h3, THEN conjunct1]
  have c: "calculate_governorate_scores ([] @ [str ''city'' \<mapsto> str ''Error''] # [])
       = calculate_governorate_scores ([] @ [])"
    by fast
  let ?c = "bare_container\<lparr>link_href := Some (Some (str ''/event/1'')),
                         title_h3 := Some (str ''Gala'')\<rparr>"
  let ?e0 = "new_event ?c (str ''https://teskerti.tn/event/1'')"
  have r1: "absolute_href (str ''/event/1'') = str ''https://teskerti.tn/event/1''"
    by (simp add: absolute_href_def str_def)
  have ne: "str ''/event/1'' \<noteq> []" by (simp add: str_def)
  have cr: "crawl [?c] [] {} = [?e0]"
    by (simp add: Let_def r1 ne)
  have nm: "?e0 (str ''name'') = Some (str ''Gala'')"
    by (simp add: new_event_def bare_container_def strip_def isspace_def str_def)
  have xu: "extract_city_from_event_page latin1 unreachable_site u (Some n) = str ''Error''" for u n
    by (simp add: extract_city_from_event_page_def unreachable_site_def)
  have xb: "extract_city_from_event_page latin1 blank_site u (Some (str ''Gala'')) = str ''Unknown''" for u
    by (simp add: extract_city_from_event_page_def title_tier_def CITY_ALIASES_def
        re_search_word_def occurs_at_def latin1_def latin1_lower_def str_def
        address_selectors_def venue_tier_def blank_site_def)
  from unknown_becomes_tunis_error_is_kept
    [where ev = "[str ''url'' \<mapsto> str ''u'', str ''name'' \<mapsto> str ''Gala'']"
      and u = "str ''u''" and n = "str ''Gala''" and x = "[str ''city'' \<mapsto> str ''Error'']"
      and rt = latin1 and cs = "[?c]" and web = unreachable_site, OF h1 h2 h3, THEN conjunct2, THEN conjunct2]
  obtain evs where
    "scrape_events latin1 unreachable_site [?c] = Some evs"
    "list_all2 (\<lambda>ev0 ev'. \<exists>u n. ev0 (str ''url'') = Some u \<and> ev0 (str ''name'') = Some n
            \<and> ev' = ev0(str ''city'' \<mapsto>
                 (if extract_city_from_event_page latin1 unreachable_site u (Some n) = str ''Unknown''
                  then str ''Tunis'' else extract_city_from_event_page latin1 unreachable_site u (Some n))))
       (crawl [?c] [] {}) evs"
    by blast
  then have a2: "\<exists>evs. scrape_events latin1 unreachable_site [?c] = Some evs
      \<and> map (\<lambda>e. e (str ''city'')) evs = [Some (str ''Error'')]"
    unfolding cr xu by (auto simp: list_all2_Cons1 str_def)
  from unknown_becomes_tunis_error_is_kept
    [where ev = "[str ''url'' \<mapsto> str ''u'', str ''name'' \<mapsto> str ''Gala'']"
      and u = "str ''u''" and n = "str ''Gala''" and x = "[str ''city'' \<mapsto> str ''Error'']"
      and rt = latin1 and cs = "[?c]" and web = blank_site, OF h1 h2 h3, THEN conjunct2, THEN conjunct2]
  obtain evs where
    "scrape_events latin1 blank_site [?c] = Some evs"
    "list_all2 (\<lambda>ev0 ev'. \<exists>u n. ev0 (str ''url'') = Some u \<and> ev0 (str ''name'') = Some n
            \<and> ev' = ev0(str ''city'' \<mapsto>
                 (if extract_city_from_event_page latin1 blank_site u (Some n) = str ''Unknown''
                  then str ''Tunis'' else extract_city_from_event_page latin1 blank_site u (Some n))))
       (crawl [?c] [] {}) evs"
    by blast
  then have b2: "\<exists>evs. scrape_events latin1 blank_site [?c] = Some evs
      \<and> map (\<lambda>e. e (str ''city'')) evs = [Some (str ''Tunis'')]"
    unfolding cr by (auto simp: list_all2_Cons1 nm xb)
  from h1 h2 h3 a b c a2 b2 show ?thesis by (simp only: simp_thms)
qed

section \<open>The import of the crawled events\<close>




section \<open>The colour bands\<close>

text \<open>
  C6. \<open>get_color_for_score\<close> is a function of the score alone, defined on every
  non-negative integer: 0 gives blue \<open>#3388FF\<close>, 1 to 3 give yellow \<open>#FFD700\<close>, 4 to 6 give
  orange \<open>#FF8800\<close>, 7 and above give red \<open>#FF0000\<close>. The four bands cover the non-negative
  integers and no score lies in two of them, the four colours being different strings.
\<close>

theorem get_color_for_score_bands:
  assumes "0 \<le> s"
  shows "(s = 0 \<longrightarrow> get_color_for_score s = str ''#3388FF'')
       \<and> (1 \<le> s \<and> s \<le> 3 \<longrightarrow> get_color_for_score s = str ''#FFD700'')
       \<and> (4 \<le> s \<and> s \<le> 6 \<longrightarrow> get_color_for_score s = str ''#FF8800'')
       \<and> (7 \<le> s \<longrightarrow> get_color_for_score s = str ''#FF0000'')
       \<and> (s = 0 \<or> (1 \<le> s \<and> s \<le> 3) \<or> (4 \<le> s \<and> s \<le> 6) \<or> 7 \<le> s)
       \<and> distinct [str ''#3388FF'', str ''#FFD700'', str ''#FF8800'', str ''#FF0000'']"
  using assms by (auto simp: get_color_for_score_def str_def)

theorem get_color_for_score_bands_witness:
  "(0::int) \<le> 0 \<and> get_color_for_score 0 = str ''#3388FF''
   \<and> (0::int) \<le> 2 \<and> (1::int) \<le> 2 \<and> (2::int) \<le> 3 \<and> get_color_for_score 2 = str ''#FFD700''
   \<and> (0::int) \<le> 5 \<and> (4::int) \<le> 5 \<and> (5::int) \<le> 6 \<and> get_color_for_score 5 = str ''#FF8800''
   \<and> (0::int) \<le> 100 \<and> (7::int) \<le> 100 \<and> get_color_for_score 100 = str ''#FF0000''"
  using get_color_for_score_bands [of 0] get_color_for_score_bands [of 2]
    get_color_for_score_bands [of 5] get_color_for_score_bands [of 100]
  by simp

end
